theory Spec2Isabelle
  imports Main
begin

section \<open>JavaScript strings\<close>

text \<open>
  A JavaScript string is a sequence of UTF-16 code units; a code unit is modelled as a
  natural number.  ASCII literals are written with \<open>js\<close>; the Cyrillic literals of the
  source are given by their code units.
\<close>

type_synonym jsstring = "nat list"

definition js :: "string \<Rightarrow> jsstring" where
  "js s = map of_char s"

text \<open>
  \<open>is_space\<close> is the class \<^verbatim>\<open>\s\<close> of a regular expression, which is also what
  \<^verbatim>\<open>String.prototype.trim\<close> strips: WhiteSpace and LineTerminator of ECMAScript.
\<close>

definition is_space :: "nat \<Rightarrow> bool" where
  "is_space c \<longleftrightarrow>
     c \<in> set [9, 10, 11, 12, 13, 32, 160, 5760, 8232, 8233, 8239, 8287, 12288, 65279]
     \<or> (8192 \<le> c \<and> c \<le> 8202)"

text \<open>
  \<open>canonicalize\<close> is Canonicalize of ECMAScript for a regular expression with flag
  \<^verbatim>\<open>i\<close> and without flag \<^verbatim>\<open>u\<close>: the upper case of the code unit, when that is one code
  unit.  It is given here on the Latin letters \<^verbatim>\<open>a-z\<close>, on the Cyrillic block
  (U+0430 to U+045F) and on the small Cyrillic variant letters U+1C80 to U+1C86; these are
  all the code units whose canonical form is that of a character of one of the six
  headers.  On every other code unit the model returns the unit itself, which changes
  no comparison with a character of a header.
\<close>

definition canonicalize :: "nat \<Rightarrow> nat" where
  "canonicalize c =
     (if 97 \<le> c \<and> c \<le> 122 then c - 32
      else if 1072 \<le> c \<and> c \<le> 1103 then c - 32
      else if 1104 \<le> c \<and> c \<le> 1119 then c - 80
      else if c = 7296 then 1042
      else if c = 7297 then 1044
      else if c = 7298 then 1054
      else if c = 7299 then 1057
      else if c = 7300 \<or> c = 7301 then 1058
      else if c = 7302 then 1066
      else c)"

text \<open>
  \<open>toLowerCase\<close> is used by the source on the six headers only; the model gives it on
  the Latin capitals and on the Cyrillic capitals U+0400 to U+042F.
\<close>

definition lower_unit :: "nat \<Rightarrow> nat" where
  "lower_unit c =
     (if 65 \<le> c \<and> c \<le> 90 then c + 32
      else if 1040 \<le> c \<and> c \<le> 1071 then c + 32
      else if 1024 \<le> c \<and> c \<le> 1039 then c + 80
      else c)"

definition toLowerCase :: "jsstring \<Rightarrow> jsstring" where
  "toLowerCase s = map lower_unit s"

definition trim :: "jsstring \<Rightarrow> jsstring" where
  "trim s = rev (dropWhile is_space (rev (dropWhile is_space s)))"

section \<open>Regular expressions by backtracking\<close>

text \<open>
  A matcher maps the rest of the input to the list of the rests after each way of
  matching, in the order in which the backtracking matcher of ECMAScript tries them.
  The match that \<^verbatim>\<open>exec\<close> reports is the first way that lets the whole pattern match.
\<close>

type_synonym matcher = "jsstring \<Rightarrow> jsstring list"

text \<open>A pattern character under flag \<^verbatim>\<open>i\<close>.\<close>

fun rx_char :: "nat \<Rightarrow> matcher" where
  "rx_char c [] = []"
| "rx_char c (x # xs) = (if canonicalize x = canonicalize c then [xs] else [])"

text \<open>A sequence of pattern characters.\<close>

fun rx_lit :: "jsstring \<Rightarrow> matcher" where
  "rx_lit [] s = [s]"
| "rx_lit (c # cs) s = concat (map (rx_lit cs) (rx_char c s))"

text \<open>The greedy \<^verbatim>\<open>X*\<close> for a class \<open>X\<close> of code units: the longest run first.\<close>

fun rx_star :: "(nat \<Rightarrow> bool) \<Rightarrow> matcher" where
  "rx_star P [] = [[]]"
| "rx_star P (x # xs) = (if P x then rx_star P xs @ [x # xs] else [x # xs])"

text \<open>Sequence, alternation \<^verbatim>\<open>(?:a|b|...)\<close>, the assertion \<^verbatim>\<open>$\<close> (no flag \<^verbatim>\<open>m\<close>).\<close>

fun rx_seq :: "matcher list \<Rightarrow> matcher" where
  "rx_seq [] s = [s]"
| "rx_seq (m # ms) s = concat (map (rx_seq ms) (m s))"

definition rx_alt :: "matcher list \<Rightarrow> matcher" where
  "rx_alt ms s = concat (map (\<lambda>m. m s) ms)"

fun rx_eoi :: matcher where
  "rx_eoi [] = [[]]"
| "rx_eoi (x # xs) = []"

text \<open>
  The capturing lazy group \<^verbatim>\<open>([\s\S]*?)\<close>: the captured text paired with the rest, the
  shortest capture first.
\<close>

fun rx_lazy_group :: "jsstring \<Rightarrow> (jsstring \<times> jsstring) list" where
  "rx_lazy_group [] = [([], [])]"
| "rx_lazy_group (x # xs) = ([], x # xs) # map (\<lambda>(c, r). (x # c, r)) (rx_lazy_group xs)"

text \<open>
  \<^verbatim>\<open>exec\<close> of a pattern without flags \<^verbatim>\<open>g\<close> and \<^verbatim>\<open>y\<close>: the match is tried at each start
  index from 0 to the length of the input, and the first success is the result.
\<close>

fun regex_exec :: "(jsstring \<Rightarrow> 'a option) \<Rightarrow> jsstring \<Rightarrow> 'a option" where
  "regex_exec m [] = m []"
| "regex_exec m (x # xs) = (case m (x # xs) of Some r \<Rightarrow> Some r | None \<Rightarrow> regex_exec m xs)"

section \<open>The response parser (parseSeoResponse of App.tsx)\<close>

record seo =
  title :: jsstring
  russianTitle :: jsstring
  "keywords" :: jsstring

definition empty_seo :: seo where
  "empty_seo = \<lparr>title = [], russianTitle = [], keywords = []\<rparr>"

text \<open>\<open>clean\<close>: every asterisk removed, then trimmed; \<open>None\<close> is \<^verbatim>\<open>undefined\<close>.\<close>

definition clean :: "jsstring option \<Rightarrow> jsstring" where
  "clean str = trim (filter (\<lambda>c. c \<noteq> 42) (case str of None \<Rightarrow> [] | Some s \<Rightarrow> s))"

text \<open>
  The six header labels.  In the order of \<open>allHeaders\<close> they are, in the source's
  spelling: Zagolovok (Russian for "title"), Title, Russian Title, Russkiy zagolovok,
  Klyuchevye slova (Russian for "keywords"), Keywords.
\<close>

definition hdr_Zagolovok :: jsstring where
  "hdr_Zagolovok = [1047, 1072, 1075, 1086, 1083, 1086, 1074, 1086, 1082]"

definition hdr_Title :: jsstring where
  "hdr_Title = js ''Title''"

definition hdr_Russian_Title :: jsstring where
  "hdr_Russian_Title = js ''Russian Title''"

definition hdr_Russkiy_zagolovok :: jsstring where
  "hdr_Russkiy_zagolovok =
     [1056, 1091, 1089, 1089, 1082, 1080, 1081, 32,
      1079, 1072, 1075, 1086, 1083, 1086, 1074, 1086, 1082]"

definition hdr_Klyuchevye_slova :: jsstring where
  "hdr_Klyuchevye_slova =
     [1050, 1083, 1102, 1095, 1077, 1074, 1099, 1077, 32, 1089, 1083, 1086, 1074, 1072]"

definition hdr_Keywords :: jsstring where
  "hdr_Keywords = js ''Keywords''"

definition allHeaders :: "jsstring list" where
  "allHeaders =
     [hdr_Zagolovok, hdr_Title, hdr_Russian_Title, hdr_Russkiy_zagolovok,
      hdr_Klyuchevye_slova, hdr_Keywords]"

text \<open>The pieces of the two patterns: \<^verbatim>\<open>\**\<close>, \<^verbatim>\<open>\s*\<close>, \<^verbatim>\<open>(?:h1|h2|...)\<close>, \<^verbatim>\<open>:\<close>.\<close>

definition is_star :: "nat \<Rightarrow> bool" where
  "is_star x \<longleftrightarrow> canonicalize x = canonicalize 42"

definition rx_stars :: matcher where
  "rx_stars = rx_star is_star"

definition rx_spaces :: matcher where
  "rx_spaces = rx_star is_space"

definition rx_headers :: "jsstring list \<Rightarrow> matcher" where
  "rx_headers hs s = (if hs = [] then [s] else rx_alt (map rx_lit hs) s)"

text \<open>\<^verbatim>\<open>\**\s*(?:headers)\**\s*:\<close>, the start of both patterns.\<close>

definition rx_header_colon :: "jsstring list \<Rightarrow> matcher" where
  "rx_header_colon hs s =
     rx_seq [rx_stars, rx_spaces, rx_headers hs, rx_stars, rx_spaces, rx_char 58] s"

text \<open>The lookahead \<^verbatim>\<open>(?=\n\s*\**\s*(?:lookaheadHeaders)\**\s*:|$)\<close>.\<close>

definition rx_section_end :: "jsstring list \<Rightarrow> jsstring \<Rightarrow> bool" where
  "rx_section_end ls s \<longleftrightarrow>
     rx_alt [rx_seq [rx_char 10, rx_spaces, rx_stars, rx_spaces, rx_headers ls,
                     rx_stars, rx_spaces, rx_char 58],
             rx_eoi] s \<noteq> []"

text \<open>
  The pattern of getSectionContent tried at one start index: the result is capture
  group 1 of the first way to match.
\<close>

definition section_match_here :: "jsstring list \<Rightarrow> jsstring list \<Rightarrow> jsstring \<Rightarrow> jsstring option" where
  "section_match_here cur ls s =
     map_option fst
       (find (\<lambda>(c, r). rx_section_end ls r)
          (concat (map rx_lazy_group (rx_seq [rx_header_colon cur, rx_spaces] s))))"

definition lookaheadHeaders :: "jsstring list \<Rightarrow> jsstring list" where
  "lookaheadHeaders currentHeaders =
     filter (\<lambda>h. \<not> list_ex (\<lambda>ch. toLowerCase h = toLowerCase ch) currentHeaders) allHeaders"

definition getSectionContent :: "jsstring \<Rightarrow> jsstring list \<Rightarrow> jsstring" where
  "getSectionContent text currentHeaders =
     (case regex_exec (section_match_here currentHeaders (lookaheadHeaders currentHeaders)) text of
        Some c \<Rightarrow> clean (Some c)
      | None \<Rightarrow> [])"

text \<open>\<^verbatim>\<open>new RegExp(`\\**\\s*${h}\\**\\s*:`, 'i').test(text)\<close>\<close>

definition header_test :: "jsstring \<Rightarrow> jsstring \<Rightarrow> bool" where
  "header_test h text \<longleftrightarrow>
     regex_exec (\<lambda>s. if rx_header_colon [h] s \<noteq> [] then Some () else None) text \<noteq> None"

definition parseSeoResponse :: "jsstring option \<Rightarrow> seo" where
  "parseSeoResponse text =
     (case text of
        None \<Rightarrow> empty_seo
      | Some t \<Rightarrow>
          if t = [] then empty_seo
          else
            let title = getSectionContent t [hdr_Zagolovok, hdr_Title];
                russianTitle = getSectionContent t [hdr_Russian_Title, hdr_Russkiy_zagolovok];
                keywords = getSectionContent t [hdr_Klyuchevye_slova, hdr_Keywords];
                keywords' =
                  (if title = [] \<and> keywords = [] \<and> russianTitle = [] then
                     (if \<not> list_ex (\<lambda>h. header_test h t) allHeaders then clean (Some t)
                      else keywords)
                   else keywords)
            in \<lparr>title = title, russianTitle = russianTitle, keywords = keywords'\<rparr>)"

subsection \<open>Notions used to state the properties of the parser\<close>

text \<open>A string is trimmed when it neither starts nor ends with white space.\<close>

definition trimmed :: "jsstring \<Rightarrow> bool" where
  "trimmed s \<longleftrightarrow> (case s of [] \<Rightarrow> True | x # xs \<Rightarrow> \<not> is_space x \<and> \<not> is_space (last s))"

text \<open>
  A header occurs in a text when, at some index, the text reads as the header in any
  letter case, then any number of asterisks, then any number of white space characters,
  then a colon.  \<open>strip_header\<close> reads the header and gives the rest.
\<close>

fun strip_header :: "jsstring \<Rightarrow> jsstring \<Rightarrow> jsstring option" where
  "strip_header [] s = Some s"
| "strip_header (c # cs) [] = None"
| "strip_header (c # cs) (x # xs) =
     (if canonicalize x = canonicalize c then strip_header cs xs else None)"

definition header_here :: "jsstring \<Rightarrow> jsstring \<Rightarrow> bool" where
  "header_here h s =
     (case strip_header h s of
        None \<Rightarrow> False
      | Some r \<Rightarrow>
          (case dropWhile is_space (dropWhile (\<lambda>c. c = 42) r) of
             [] \<Rightarrow> False
           | c # cs \<Rightarrow> c = 58))"

fun header_occurs :: "jsstring \<Rightarrow> jsstring \<Rightarrow> bool" where
  "header_occurs h [] = header_here h []"
| "header_occurs h (x # xs) = (header_here h (x # xs) \<or> header_occurs h xs)"

text \<open>
  The literal reading: the token, letter for letter, with the colon right after it.
\<close>

fun occurs_literally :: "jsstring \<Rightarrow> jsstring \<Rightarrow> bool" where
  "occurs_literally p [] = (p = [])"
| "occurs_literally p (x # xs) = (take (length p) (x # xs) = p \<or> occurs_literally p xs)"

section \<open>The upload client (uploadFile)\<close>

text \<open>
  A thrown \<^verbatim>\<open>Error\<close> is a value that carries its message.  The remote file service is
  a parameter: the answer to \<^verbatim>\<open>client.files.upload\<close>, and the answer to the \<open>k\<close>-th
  call of \<^verbatim>\<open>client.files.get\<close> for a file name; \<open>Inl\<close> is a call that throws.
\<close>

datatype js_error = JsError jsstring

datatype file_state = STATE_UNSPECIFIED | PROCESSING | ACTIVE | FAILED

record remote_file =
  rf_name :: jsstring
  rf_uri :: jsstring
  rf_mimeType :: jsstring
  rf_state :: file_state

record files_service =
  files_upload :: "js_error + remote_file"
  files_get :: "jsstring \<Rightarrow> nat \<Rightarrow> js_error + remote_file"

text \<open>The message of the error thrown for a file in state FAILED.\<close>

definition processing_failed :: jsstring where
  "processing_failed =
     [1054, 1096, 1080, 1073, 1082, 1072, 32, 1086, 1073, 1088, 1072, 1073, 1086, 1090,
      1082, 1080, 32, 1092, 1072, 1081, 1083, 1072, 46]"

text \<open>
  The \<^verbatim>\<open>while\<close> loop: \<open>k\<close> counts the calls of \<^verbatim>\<open>get\<close> made so far.  The loop has no
  bound, so it is a partial function and \<open>None\<close> is a loop that never ends.  The wait
  of five seconds between two calls is not part of the model.
\<close>

partial_function (option) poll_loop ::
  "(nat \<Rightarrow> js_error + remote_file) \<Rightarrow> nat \<Rightarrow> remote_file \<Rightarrow> (js_error + remote_file) option"
where
  "poll_loop get k getFile =
     (if rf_state getFile = PROCESSING then
        (case get k of
           Inl e \<Rightarrow> Some (Inl e)
         | Inr f \<Rightarrow> poll_loop get (Suc k) f)
      else Some (Inr getFile))"

definition uploadFile :: "files_service \<Rightarrow> (js_error + remote_file) option" where
  "uploadFile client =
     (case files_upload client of
        Inl e \<Rightarrow> Some (Inl e)
      | Inr uploadedFile \<Rightarrow>
          (case files_get client (rf_name uploadedFile) 0 of
             Inl e \<Rightarrow> Some (Inl e)
           | Inr getFile \<Rightarrow>
               (case poll_loop (files_get client (rf_name uploadedFile)) 1 getFile of
                  None \<Rightarrow> None
                | Some (Inl e) \<Rightarrow> Some (Inl e)
                | Some (Inr f) \<Rightarrow>
                    if rf_state f = FAILED then Some (Inl (JsError processing_failed))
                    else Some (Inr f))))"

section \<open>The video collection (state of App)\<close>

record timecode =
  tc_time :: jsstring
  tc_text :: jsstring

text \<open>
  VideoFileEntry.  A field that is \<^verbatim>\<open>null\<close> or \<^verbatim>\<open>undefined\<close> is \<open>None\<close>.  The field
  \<^verbatim>\<open>file\<close> (the raw file, read by the upload only) is left out.
\<close>

record video_entry =
  v_id :: jsstring
  v_name :: jsstring
  v_url :: jsstring
  v_geminiFile :: "remote_file option"
  v_uploadError :: "jsstring option"
  v_seoData :: "seo option"
  v_textResponse :: "jsstring option"
  v_timecodeList :: "timecode list option"

text \<open>
  The state of the component that the modelled handlers read or write, and
  \<open>revokedUrls\<close>, the local handles released by \<^verbatim>\<open>URL.revokeObjectURL\<close> so far.
\<close>

record app_state =
  videoFiles :: "video_entry list"
  activeVideoId :: "jsstring option"
  timecodeList :: "timecode list option"
  textResponse :: "jsstring option"
  activeMode :: "jsstring option"
  isLoading :: bool
  seoData :: seo
  correctionText :: jsstring
  additionalText :: jsstring
  applyToAll :: bool
  revokedUrls :: "jsstring list"

definition MODE_SEO :: jsstring where
  "MODE_SEO = [83, 69, 79, 32, 1054, 1087, 1080, 1089, 1072, 1085, 1080, 1077]"

text \<open>The mode name set by the restore effect for a cached timecode list.\<close>

definition MODE_SUBTITLES :: jsstring where
  "MODE_SUBTITLES =
     [1040, 1091, 1076, 1080, 1086, 47, 1042, 1080, 1076, 1077, 1086, 32,
      1089, 1091, 1073, 1090, 1080, 1090, 1088, 1099]"

text \<open>
  The derived value \<^verbatim>\<open>activeVideo\<close>: the first entry with the active id, when the id is
  truthy (neither \<^verbatim>\<open>null\<close> nor the empty string).
\<close>

definition activeVideo :: "app_state \<Rightarrow> video_entry option" where
  "activeVideo st =
     (case activeVideoId st of
        None \<Rightarrow> None
      | Some i \<Rightarrow> if i = [] then None else find (\<lambda>v. v_id v = i) (videoFiles st))"

subsection \<open>handleRemoveVideo\<close>

text \<open>
  \<^verbatim>\<open>findIndex\<close>: the index of the first match; \<open>None\<close> stands for the result -1, which
  does not arise in handleRemoveVideo, where the video was found before.
\<close>

fun findIndex :: "('a \<Rightarrow> bool) \<Rightarrow> 'a list \<Rightarrow> nat option" where
  "findIndex P [] = None"
| "findIndex P (x # xs) = (if P x then Some 0 else map_option Suc (findIndex P xs))"

definition handleRemoveVideo :: "app_state \<Rightarrow> jsstring \<Rightarrow> app_state" where
  "handleRemoveVideo st idToRemove =
     (case find (\<lambda>v. v_id v = idToRemove) (videoFiles st) of
        None \<Rightarrow> st
      | Some videoToRemove \<Rightarrow>
          let st1 = st\<lparr>revokedUrls := revokedUrls st @ [v_url videoToRemove]\<rparr>;
              remainingVideos = filter (\<lambda>v. v_id v \<noteq> idToRemove) (videoFiles st);
              st2 =
                (if activeVideoId st = Some idToRemove then
                   (if length remainingVideos = 0 then st1\<lparr>activeVideoId := None\<rparr>
                    else
                      (case findIndex (\<lambda>v. v_id v = idToRemove) (videoFiles st) of
                         None \<Rightarrow> st1
                       | Some originalIndex \<Rightarrow>
                           let newIndex = min originalIndex (length remainingVideos - 1)
                           in st1\<lparr>activeVideoId := Some (v_id (remainingVideos ! newIndex))\<rparr>))
                 else st1)
          in st2\<lparr>videoFiles := remainingVideos\<rparr>)"

subsection \<open>The two effects and setActiveVideoId\<close>

text \<open>One run of the restore effect (the first \<^verbatim>\<open>useEffect\<close>).\<close>

definition restore_effect :: "app_state \<Rightarrow> app_state" where
  "restore_effect st =
     (case activeVideo st of
        None \<Rightarrow>
          (case activeVideoId st of
             None \<Rightarrow> st
           | Some i \<Rightarrow>
               if i \<noteq> [] \<and> length (videoFiles st) > 0
               then st\<lparr>activeVideoId := Some (v_id (hd (videoFiles st)))\<rparr>
               else st)
      | Some v \<Rightarrow>
          let other =
                (case v_timecodeList v of
                   Some l \<Rightarrow>
                     st\<lparr>timecodeList := Some l, textResponse := None,
                        activeMode := Some MODE_SUBTITLES, seoData := empty_seo\<rparr>
                 | None \<Rightarrow>
                     st\<lparr>timecodeList := None, textResponse := None,
                        seoData := empty_seo, activeMode := None\<rparr>);
              st' =
                (case v_seoData v of
                   Some d \<Rightarrow>
                     if title d \<noteq> [] \<or> keywords d \<noteq> [] then
                       st\<lparr>seoData := d,
                          textResponse :=
                            (case v_textResponse v of
                               None \<Rightarrow> None
                             | Some t \<Rightarrow> if t = [] then None else Some t),
                          activeMode := Some MODE_SEO\<rparr>
                     else other
                 | None \<Rightarrow> other)
          in st'\<lparr>correctionText := []\<rparr>)"

text \<open>One run of the second effect, which parses the displayed text again.\<close>

definition sync_effect :: "app_state \<Rightarrow> app_state" where
  "sync_effect st =
     (if activeMode st = Some MODE_SEO \<and> textResponse st \<noteq> None \<and> textResponse st \<noteq> Some []
      then
        let parsed = parseSeoResponse (textResponse st)
        in if title parsed \<noteq> title (seoData st) \<or> keywords parsed \<noteq> keywords (seoData st)
           then st\<lparr>seoData := parsed\<rparr>
           else st
      else st)"

text \<open>
  A click on a tab: \<^verbatim>\<open>setActiveVideoId(video.id)\<close> and the effects that follow.  Setting
  the state to the value it has renders nothing and runs no effect.  Otherwise the
  restore effect runs, since \<^verbatim>\<open>activeVideoId\<close> changed; it runs once more when it changed
  the id itself (no entry has the id); the second effect runs when the rendered
  \<^verbatim>\<open>textResponse\<close> or \<^verbatim>\<open>activeMode\<close> changed.
\<close>

definition setActive :: "app_state \<Rightarrow> jsstring \<Rightarrow> app_state" where
  "setActive st i =
     (if activeVideoId st = Some i then st
      else
        let s1 = st\<lparr>activeVideoId := Some i\<rparr>;
            s2 = restore_effect s1;
            s3 = (if activeVideoId s2 \<noteq> activeVideoId s1 then restore_effect s2 else s2)
        in if textResponse s3 \<noteq> textResponse s1 \<or> activeMode s3 \<noteq> activeMode s1
           then sync_effect s3
           else s3)"

subsection \<open>onModeSelect\<close>

text \<open>
  \<^verbatim>\<open>modes[mode]\<close> comes from a module that is not part of the sources; the configuration
  of the selected mode is a parameter.
\<close>

record mode_config =
  prompt :: jsstring
  isText :: bool

text \<open>
  The answer of the generation service: \<^verbatim>\<open>resp.text\<close> and \<^verbatim>\<open>resp.functionCalls\<close>; a
  function call has its name and \<^verbatim>\<open>args.timecodes\<close>, typed as functions.ts declares
  them.  The service is a parameter: it gets the prompt, whether function declarations
  were passed, and the file; \<open>Inl\<close> is a call that throws, with the message of the
  error.
\<close>

record function_call =
  fc_name :: jsstring
  fc_timecodes :: "timecode list"

record gen_response =
  resp_text :: "jsstring option"
  resp_functionCalls :: "function_call list option"

type_synonym generator = "jsstring \<Rightarrow> bool \<Rightarrow> remote_file option \<Rightarrow> jsstring + gen_response"

datatype task_result =
  Succeeded jsstring gen_response
| Failed_task jsstring jsstring

fun r_id :: "task_result \<Rightarrow> jsstring" where
  "r_id (Succeeded i resp) = i"
| "r_id (Failed_task i msg) = i"

text \<open>\<^verbatim>\<open>t.text.replaceAll("\\'", "'")\<close>: backslash is 92, apostrophe is 39.\<close>

fun unescape_apostrophes :: "jsstring \<Rightarrow> jsstring" where
  "unescape_apostrophes (a # b # s) =
     (if a = 92 \<and> b = 39 then 39 # unescape_apostrophes s
      else a # unescape_apostrophes (b # s))"
| "unescape_apostrophes s = s"

definition process_timecodes :: "timecode list \<Rightarrow> timecode list" where
  "process_timecodes timecodes =
     map (\<lambda>t. t\<lparr>tc_text := unescape_apostrophes (tc_text t)\<rparr>) timecodes"

text \<open>
  setTimecodes, which the component defines and no handler calls: the same processing,
  cached in the entry of the active video.
\<close>

definition setTimecodes :: "app_state \<Rightarrow> timecode list \<Rightarrow> app_state" where
  "setTimecodes st timecodes =
     (let processed = process_timecodes timecodes
      in st\<lparr>timecodeList := Some processed,
            videoFiles :=
              map (\<lambda>v. if Some (v_id v) = activeVideoId st
                        then v\<lparr>v_timecodeList := Some processed\<rparr> else v)
                (videoFiles st)\<rparr>)"

definition set_timecodes :: jsstring where
  "set_timecodes = js ''set_timecodes''"

text \<open>\<^verbatim>\<open>resp.functionCalls?.[0]\<close>\<close>

definition first_call :: "gen_response \<Rightarrow> function_call option" where
  "first_call resp =
     (case resp_functionCalls resp of
        None \<Rightarrow> None
      | Some [] \<Rightarrow> None
      | Some (c # cs) \<Rightarrow> Some c)"

definition important_context :: jsstring where
  "important_context =
     [10, 10, 1042, 1040, 1046, 1053, 1054, 58, 32, 1055, 1088, 1080, 32, 1075, 1077, 1085,
      1077, 1088, 1072, 1094, 1080, 1080, 32, 1086, 1073, 1103, 1079, 1072, 1090, 1077,
      1083, 1100, 1085, 1086, 32, 1091, 1095, 1090, 1080, 32, 1089, 1083, 1077, 1076, 1091,
      1102, 1097, 1080, 1081, 32, 1082, 1086, 1085, 1090, 1077, 1082, 1089, 1090, 32, 1080,
      1083, 1080, 32, 1082, 1083, 1102, 1095, 1077, 1074, 1099, 1077, 32, 1089, 1083, 1086,
      1074, 1072, 58, 32, 34]"

definition basePrompt :: "mode_config \<Rightarrow> app_state \<Rightarrow> jsstring" where
  "basePrompt modeConfig st =
     (if trim (additionalText st) \<noteq> []
      then prompt modeConfig @ important_context @ additionalText st @ [34]
      else prompt modeConfig)"

definition targets :: "app_state \<Rightarrow> video_entry list" where
  "targets st =
     (if applyToAll st then filter (\<lambda>v. v_geminiFile v \<noteq> None) (videoFiles st)
      else filter (\<lambda>v. Some (v_id v) = activeVideoId st \<and> v_geminiFile v \<noteq> None)
             (videoFiles st))"

text \<open>
  One task of the \<^verbatim>\<open>Promise.all\<close>: the inner \<^verbatim>\<open>try\<close> turns a call that throws into a
  result, so the task itself never rejects.
\<close>

definition task_value ::
  "generator \<Rightarrow> jsstring \<Rightarrow> bool \<Rightarrow> video_entry \<Rightarrow> task_result" where
  "task_value generateContent p isTextMode v =
     (case generateContent p (\<not> isTextMode) (v_geminiFile v) of
        Inr resp \<Rightarrow> Succeeded (v_id v) resp
      | Inl msg \<Rightarrow> Failed_task (v_id v) msg)"

definition run_task ::
  "generator \<Rightarrow> jsstring \<Rightarrow> bool \<Rightarrow> video_entry \<Rightarrow> js_error + task_result" where
  "run_task generateContent p isTextMode v = Inr (task_value generateContent p isTextMode v)"

text \<open>
  \<^verbatim>\<open>Promise.all\<close>: the values of the tasks in their order, or the first rejection.  The
  tasks share no state, so the order in which they settle does not show in the result.
\<close>

fun promise_all :: "(js_error + 'a) list \<Rightarrow> js_error + 'a list" where
  "promise_all [] = Inr []"
| "promise_all (Inl e # rs) = Inl e"
| "promise_all (Inr x # rs) = (case promise_all rs of Inl e \<Rightarrow> Inl e | Inr xs \<Rightarrow> Inr (x # xs))"

text \<open>The function given to \<^verbatim>\<open>setVideoFiles\<close>, for one entry of the collection.\<close>

definition update_entry :: "bool \<Rightarrow> task_result list \<Rightarrow> video_entry \<Rightarrow> video_entry" where
  "update_entry isTextMode results v =
     (case find (\<lambda>r. r_id r = v_id v) results of
        Some (Succeeded i resp) \<Rightarrow>
          if isTextMode then
            v\<lparr>v_textResponse := resp_text resp, v_seoData := Some (parseSeoResponse (resp_text resp))\<rparr>
          else
            (case first_call resp of
               Some call \<Rightarrow>
                 if fc_name call = set_timecodes
                 then v\<lparr>v_timecodeList := Some (process_timecodes (fc_timecodes call))\<rparr>
                 else v
             | None \<Rightarrow> v)
      | Some (Failed_task i msg) \<Rightarrow> v
      | None \<Rightarrow> v)"

definition error_prefix :: jsstring where
  "error_prefix = [1054, 1096, 1080, 1073, 1082, 1072, 58, 32]"

definition invalid_response :: jsstring where
  "invalid_response =
     [1054, 1096, 1080, 1073, 1082, 1072, 58, 32, 1053, 1077, 1082, 1086, 1088, 1088, 1077,
      1082, 1090, 1085, 1099, 1081, 32, 1086, 1090, 1074, 1077, 1090, 32, 1084, 1086, 1076,
      1077, 1083, 1080, 46]"

definition general_error :: jsstring where
  "general_error =
     [1055, 1088, 1086, 1080, 1079, 1086, 1096, 1083, 1072, 32, 1086, 1073, 1097, 1072,
      1103, 32, 1086, 1096, 1080, 1073, 1082, 1072, 46]"

text \<open>The update of the displayed result from the result of the active video.\<close>

definition update_active_view :: "bool \<Rightarrow> task_result list \<Rightarrow> jsstring option \<Rightarrow> app_state \<Rightarrow> app_state" where
  "update_active_view isTextMode results activeId st =
     (case find (\<lambda>r. Some (r_id r) = activeId) results of
        None \<Rightarrow> st
      | Some (Succeeded i resp) \<Rightarrow>
          if isTextMode then st\<lparr>textResponse := resp_text resp\<rparr>
          else
            (case first_call resp of
               Some call \<Rightarrow>
                 if fc_name call = set_timecodes
                 then st\<lparr>timecodeList := Some (process_timecodes (fc_timecodes call))\<rparr>
                 else st\<lparr>textResponse := Some invalid_response\<rparr>
             | None \<Rightarrow> st\<lparr>textResponse := Some invalid_response\<rparr>)
      | Some (Failed_task i msg) \<Rightarrow> st\<lparr>textResponse := Some (error_prefix @ msg)\<rparr>)"

text \<open>
  The body of the outer \<^verbatim>\<open>try\<close>, for the state \<open>st1\<close> after the view was cleared; \<open>Inl\<close>
  is an exception that reaches the outer \<^verbatim>\<open>catch\<close>.
\<close>

definition onModeSelect_try ::
  "generator \<Rightarrow> mode_config \<Rightarrow> app_state \<Rightarrow> app_state \<Rightarrow> js_error + app_state" where
  "onModeSelect_try generateContent modeConfig st st1 =
     (case promise_all
             (map (run_task generateContent (basePrompt modeConfig st) (isText modeConfig))
                (targets st)) of
        Inl e \<Rightarrow> Inl e
      | Inr results \<Rightarrow>
          Inr (update_active_view (isText modeConfig) results (activeVideoId st)
                 (st1\<lparr>videoFiles :=
                        map (update_entry (isText modeConfig) results) (videoFiles st1)\<rparr>)))"

definition onModeSelect ::
  "generator \<Rightarrow> mode_config \<Rightarrow> jsstring \<Rightarrow> app_state \<Rightarrow> app_state" where
  "onModeSelect generateContent modeConfig mode st =
     (let st1 = st\<lparr>activeMode := Some mode, isLoading := True, timecodeList := None,
                   textResponse := None, correctionText := [], seoData := empty_seo\<rparr>
      in if length (targets st) = 0 then st1\<lparr>isLoading := False\<rparr>
         else
           (case onModeSelect_try generateContent modeConfig st st1 of
              Inr st2 \<Rightarrow> st2
            | Inl e \<Rightarrow> st1\<lparr>textResponse := Some general_error\<rparr>)
           \<lparr>isLoading := False, additionalText := [], applyToAll := False\<rparr>)"

subsection \<open>The other writers of the cached fields\<close>

text \<open>
  The entry that processAndUploadFiles makes for a new file, with its id, name and
  local handle: no remote file yet, no upload error, and no cached result.
\<close>

definition newVideoEntry :: "jsstring \<Rightarrow> jsstring \<Rightarrow> jsstring \<Rightarrow> video_entry" where
  "newVideoEntry i n u =
     \<lparr>v_id = i, v_name = n, v_url = u, v_geminiFile = None, v_uploadError = None,
      v_seoData = None, v_textResponse = None, v_timecodeList = None\<rparr>"

text \<open>
  The function given to \<^verbatim>\<open>setVideoFiles\<close> by handleCorrection, for one entry of the
  collection: \<open>respText\<close> is \<^verbatim>\<open>resp.text\<close>, the answer to the correction request.
\<close>

definition correction_update :: "jsstring option \<Rightarrow> jsstring option \<Rightarrow> video_entry \<Rightarrow> video_entry" where
  "correction_update activeId respText v =
     (if Some (v_id v) = activeId
      then v\<lparr>v_textResponse := respText, v_seoData := Some (parseSeoResponse respText)\<rparr>
      else v)"

subsection \<open>Notions used to state the properties of the collection\<close>

text \<open>
  The guard of the first branch of the restore effect: the entry has cached fields, and
  their title or their keywords are not empty.
\<close>

definition has_seo :: "video_entry \<Rightarrow> bool" where
  "has_seo v = (case v_seoData v of None \<Rightarrow> False | Some d \<Rightarrow> title d \<noteq> [] \<or> keywords d \<noteq> [])"

text \<open>
  The cached fields of an entry are consistent when their title and keywords are those
  that parseSeoResponse finds in its cached text, the two fields that the second effect
  compares; an entry without cached fields is consistent.
\<close>

definition cache_consistent :: "video_entry \<Rightarrow> bool" where
  "cache_consistent v =
     (case v_seoData v of
        None \<Rightarrow> True
      | Some d \<Rightarrow> title (parseSeoResponse (v_textResponse v)) = title d
                \<and> keywords (parseSeoResponse (v_textResponse v)) = keywords d)"

text \<open>
  A video is in an error state when its entry carries an upload error, or when it is
  the active video and the displayed text is an error message of a generation run.
\<close>

definition in_error_state :: "app_state \<Rightarrow> jsstring \<Rightarrow> bool" where
  "in_error_state st i \<longleftrightarrow>
     list_ex (\<lambda>v. v_id v = i \<and> v_uploadError v \<noteq> None) (videoFiles st)
     \<or> (activeVideoId st = Some i
        \<and> (case textResponse st of
             None \<Rightarrow> False
           | Some t \<Rightarrow> take (length error_prefix) t = error_prefix))"

section \<open>Sample values\<close>

text \<open>Concrete files, videos, states and services at which the theorems are instantiated.\<close>

definition sample_file :: "jsstring \<Rightarrow> file_state \<Rightarrow> remote_file" where
  "sample_file n s =
     \<lparr>rf_name = js ''files/'' @ n, rf_uri = js ''https://files/'' @ n,
      rf_mimeType = js ''video/mp4'', rf_state = s\<rparr>"

definition sample_service :: "file_state \<Rightarrow> files_service" where
  "sample_service s =
     \<lparr>files_upload = Inr (sample_file (js ''a'') PROCESSING),
      files_get = (\<lambda>name k. if k < 2 then Inr (sample_file (js ''a'') PROCESSING)
                              else Inr (sample_file (js ''a'') s))\<rparr>"

definition sample_video :: "jsstring \<Rightarrow> video_entry" where
  "sample_video i =
     \<lparr>v_id = i, v_name = i @ js ''.mp4'', v_url = js ''blob:'' @ i,
      v_geminiFile = Some (sample_file i ACTIVE), v_uploadError = None, v_seoData = None,
      v_textResponse = None, v_timecodeList = None\<rparr>"

definition sample_state :: "video_entry list \<Rightarrow> jsstring option \<Rightarrow> bool \<Rightarrow> app_state" where
  "sample_state vs a toAll =
     \<lparr>videoFiles = vs, activeVideoId = a, timecodeList = None, textResponse = None,
      activeMode = None, isLoading = False, seoData = empty_seo, correctionText = [],
      additionalText = [], applyToAll = toAll, revokedUrls = []\<rparr>"

definition sample_mode :: mode_config where
  "sample_mode = \<lparr>prompt = js ''Generate captions'', isText = False\<rparr>"

text \<open>
  A generation service that throws for the file of one video and answers every other
  call with one \<^verbatim>\<open>set_timecodes\<close> call, whose text holds an escaped apostrophe.
\<close>

definition sample_timecodes :: "timecode list" where
  "sample_timecodes = [\<lparr>tc_time = js ''0:05'', tc_text = js ''it'' @ [92, 39] @ js ''s''\<rparr>]"

definition sample_generator :: "jsstring \<Rightarrow> generator" where
  "sample_generator failing p withFunctions file =
     (if file = Some (sample_file failing ACTIVE) then Inl (js ''quota'')
      else Inr \<lparr>resp_text = None,
                resp_functionCalls =
                  Some [\<lparr>fc_name = set_timecodes, fc_timecodes = sample_timecodes\<rparr>]\<rparr>)"

text \<open>A free-text answer whose title section holds emphasis marks only.\<close>

definition sample_answer :: jsstring where
  "sample_answer = js ''Title: **'' @ [10] @ js ''Russian Title: X''"

definition sample_parsed_video :: "jsstring \<Rightarrow> jsstring \<Rightarrow> video_entry" where
  "sample_parsed_video i answer =
     (sample_video i)
       \<lparr>v_textResponse := Some answer, v_seoData := Some (parseSeoResponse (Some answer))\<rparr>"

text \<open>An entry whose cached fields are not the parse of its cached text.\<close>

definition sample_inconsistent_video :: "jsstring \<Rightarrow> video_entry" where
  "sample_inconsistent_video i =
     (sample_video i)
       \<lparr>v_textResponse := Some (js ''Title: New''),
          v_seoData := Some \<lparr>title = js ''Old'', russianTitle = [], keywords = []\<rparr>\<rparr>"

definition sample_captioned_video :: "jsstring \<Rightarrow> video_entry" where
  "sample_captioned_video i =
     (sample_video i)\<lparr>v_timecodeList := Some (process_timecodes sample_timecodes)\<rparr>"

section \<open>Properties of the response parser\<close>

subsection \<open>Characters and trimming\<close>

lemma canonicalize_star: "canonicalize x = canonicalize 42 \<longleftrightarrow> x = 42"
  by (simp add: canonicalize_def) arith

lemma canonicalize_colon: "canonicalize x = canonicalize 58 \<longleftrightarrow> x = 58"
  by (simp add: canonicalize_def) arith

lemma is_star_iff: "is_star c \<longleftrightarrow> c = 42"
  by (simp add: is_star_def canonicalize_star)

lemma not_space_colon: "\<not> is_space 58"
  by (simp add: is_space_def)

lemma not_space_star: "\<not> is_space 42"
  by (simp add: is_space_def)

lemma dropWhile_last_nonempty:
  assumes ne: "dropWhile P xs \<noteq> []"
  shows "last (dropWhile P xs) = last xs"
proof -
  from ne have "hd (dropWhile P xs) \<in> set (dropWhile P xs)" by simp
  then have "hd (dropWhile P xs) \<in> set xs" by (rule set_dropWhileD)
  moreover have "\<not> P (hd (dropWhile P xs))" using ne by (rule hd_dropWhile)
  ultimately show ?thesis by (rule dropWhile_last)
qed

lemma trimmed_trim: "trimmed (trim s)"
proof (cases "trim s")
  case Nil
  then show ?thesis by (simp add: trimmed_def)
next
  case (Cons x xs)
  define t where "t = dropWhile is_space s"
  define u where "u = dropWhile is_space (rev t)"
  have tr: "trim s = rev u" by (simp add: trim_def t_def u_def)
  with Cons have une: "u \<noteq> []" by auto
  then have "rev t \<noteq> []" unfolding u_def by auto
  then have tne: "t \<noteq> []" by simp
  have "last (trim s) = hd u" using tr une by (simp add: last_rev)
  moreover have "\<not> is_space (hd u)" using une unfolding u_def by (rule hd_dropWhile)
  ultimately have l: "\<not> is_space (last (trim s))" by simp
  have "hd (trim s) = last u" using tr une by (simp add: hd_rev)
  also have "\<dots> = last (rev t)" using une unfolding u_def by (rule dropWhile_last_nonempty)
  also have "\<dots> = hd t" using tne by (simp add: last_rev)
  finally have "hd (trim s) = hd t" .
  moreover have "\<not> is_space (hd t)" using tne unfolding t_def by (rule hd_dropWhile)
  ultimately have "\<not> is_space (hd (trim s))" by simp
  with l Cons show ?thesis by (simp add: trimmed_def)
qed

lemma set_trim: "set (trim s) \<subseteq> set s"
proof -
  have "set (dropWhile is_space (rev (dropWhile is_space s))) \<subseteq> set (rev (dropWhile is_space s))"
    by (auto dest: set_dropWhileD)
  also have "\<dots> \<subseteq> set s" by (auto dest: set_dropWhileD)
  finally show ?thesis by (simp add: trim_def)
qed

lemma clean_tidy: "42 \<notin> set (clean str) \<and> trimmed (clean str)"
  using set_trim [of "filter (\<lambda>c. c \<noteq> 42) (case str of None \<Rightarrow> [] | Some s \<Rightarrow> s)"]
  by (auto simp: clean_def trimmed_trim)

lemma getSectionContent_tidy:
  "42 \<notin> set (getSectionContent t hs) \<and> trimmed (getSectionContent t hs)"
proof (cases "regex_exec (section_match_here hs (lookaheadHeaders hs)) t")
  case None
  then show ?thesis by (simp add: getSectionContent_def trimmed_def)
next
  case (Some c)
  then show ?thesis using clean_tidy [of "Some c"] by (simp add: getSectionContent_def)
qed

text \<open>
  Claim C10.  For every input text, none of the three fields that parseSeoResponse
  returns contains an asterisk, and none starts or ends with white space: each field is
  either empty or the result of \<open>clean\<close>, which removes every asterisk of the extracted
  content and then trims it.
\<close>

theorem parseSeoResponse_fields_clean:
  "42 \<notin> set (title (parseSeoResponse text)) \<and> trimmed (title (parseSeoResponse text))
   \<and> 42 \<notin> set (russianTitle (parseSeoResponse text))
   \<and> trimmed (russianTitle (parseSeoResponse text))
   \<and> 42 \<notin> set (keywords (parseSeoResponse text))
   \<and> trimmed (keywords (parseSeoResponse text))"
proof -
  have e: "trimmed []" by (simp add: trimmed_def)
  have "42 \<notin> set (title (parseSeoResponse text)) \<and> trimmed (title (parseSeoResponse text))"
    by (simp add: parseSeoResponse_def empty_seo_def Let_def e getSectionContent_tidy
        split: option.splits)
  moreover have "42 \<notin> set (russianTitle (parseSeoResponse text))
      \<and> trimmed (russianTitle (parseSeoResponse text))"
    by (simp add: parseSeoResponse_def empty_seo_def Let_def e getSectionContent_tidy
        split: option.splits)
  moreover have "42 \<notin> set (keywords (parseSeoResponse text))
      \<and> trimmed (keywords (parseSeoResponse text))"
    by (simp add: parseSeoResponse_def empty_seo_def Let_def e getSectionContent_tidy clean_tidy
        split: option.splits)
  ultimately show ?thesis by simp
qed

subsection \<open>What the backtracking matchers accept\<close>

lemma rx_star_sound:
  "r \<in> set (rx_star P s) \<Longrightarrow> \<exists>p. s = p @ r \<and> (\<forall>c\<in>set p. P c)"
proof (induction s)
  case Nil
  then show ?case by simp
next
  case (Cons x xs)
  show ?case
  proof (cases "r = x # xs")
    case True
    then show ?thesis by simp
  next
    case False
    with Cons.prems have px: "P x" and "r \<in> set (rx_star P xs)" by (auto split: if_splits)
    from Cons.IH [OF this(2)] obtain p where "xs = p @ r" "\<forall>c\<in>set p. P c" by blast
    with px have "x # xs = (x # p) @ r \<and> (\<forall>c\<in>set (x # p). P c)" by simp
    then show ?thesis by blast
  qed
qed

lemma rx_star_self: "s \<in> set (rx_star P s)"
  by (cases s) simp_all

lemma rx_star_dropWhile: "dropWhile P s \<in> set (rx_star P s)"
  by (induction s) simp_all

lemma rx_lit_strip: "rx_lit h s = (case strip_header h s of None \<Rightarrow> [] | Some r \<Rightarrow> [r])"
  by (induction h s rule: strip_header.induct) simp_all

lemma rx_char_sound:
  "r \<in> set (rx_char c s) \<Longrightarrow> \<exists>x. s = x # r \<and> canonicalize x = canonicalize c"
  by (cases s) (auto split: if_splits)

lemma dropWhile_prefix_all:
  "\<forall>c\<in>set p. P c \<Longrightarrow> dropWhile P (p @ r) = dropWhile P r"
  by (induction p) simp_all

lemma dropWhile_none:
  "\<forall>c\<in>set p. \<not> Q c \<Longrightarrow> \<not> Q y \<Longrightarrow> dropWhile Q (p @ y # r) = p @ y # r"
  by (cases p) simp_all

lemma header_occurs_here: "header_here h s \<Longrightarrow> header_occurs h s"
  by (cases s) simp_all

lemma header_occurs_append: "header_occurs h r \<Longrightarrow> header_occurs h (p @ r)"
  by (induction p) simp_all

lemma header_occurs_split:
  "header_occurs h t \<Longrightarrow> \<exists>p u. t = p @ u \<and> header_here h u"
proof (induction t)
  case Nil
  then show ?case by simp
next
  case (Cons x xs)
  show ?case
  proof (cases "header_here h (x # xs)")
    case True
    then have "x # xs = [] @ (x # xs) \<and> header_here h (x # xs)" by simp
    then show ?thesis by blast
  next
    case False
    with Cons.prems have "header_occurs h xs" by simp
    from Cons.IH [OF this] obtain p u where "xs = p @ u" "header_here h u" by blast
    then have "x # xs = (x # p) @ u \<and> header_here h u" by simp
    then show ?thesis by blast
  qed
qed

lemma header_here_intro:
  assumes h: "strip_header h s = Some (p3 @ p4 @ 58 # r)"
    and p3: "\<forall>c\<in>set p3. is_star c" and p4: "\<forall>c\<in>set p4. is_space c"
  shows "header_here h s"
proof -
  have "dropWhile (\<lambda>c. c = 42) (p3 @ p4 @ 58 # r) = dropWhile (\<lambda>c. c = 42) (p4 @ 58 # r)"
    using p3 by (intro dropWhile_prefix_all) (simp add: is_star_iff)
  also have "\<dots> = p4 @ 58 # r"
    using p4 not_space_star by (intro dropWhile_none) auto
  finally have "dropWhile is_space (dropWhile (\<lambda>c. c = 42) (p3 @ p4 @ 58 # r)) = 58 # r"
    using p4 by (simp add: dropWhile_prefix_all not_space_colon)
  then show ?thesis using h by (simp add: header_here_def)
qed

text \<open>The pattern that starts both regular expressions matches only at a header.\<close>

lemma rx_header_colon_sound:
  assumes m: "rx_header_colon hs s \<noteq> []" and ne: "hs \<noteq> []"
  shows "\<exists>h\<in>set hs. header_occurs h s"
proof -
  from m obtain r where "r \<in> set (rx_header_colon hs s)"
    by (cases "rx_header_colon hs s") auto
  then obtain s1 s2 s3 s4 s5 where
    s1: "s1 \<in> set (rx_star is_star s)" and s2: "s2 \<in> set (rx_star is_space s1)"
    and s3: "s3 \<in> set (rx_headers hs s2)" and s4: "s4 \<in> set (rx_star is_star s3)"
    and s5: "s5 \<in> set (rx_star is_space s4)" and r: "r \<in> set (rx_char 58 s5)"
    by (auto simp: rx_header_colon_def rx_stars_def rx_spaces_def)
  from s3 ne obtain h where h: "h \<in> set hs" "s3 \<in> set (rx_lit h s2)"
    by (auto simp: rx_headers_def rx_alt_def)
  then have st: "strip_header h s2 = Some s3"
    by (auto simp: rx_lit_strip split: option.splits)
  from rx_star_sound [OF s1] obtain p1 where p1: "s = p1 @ s1" by blast
  from rx_star_sound [OF s2] obtain p2 where p2: "s1 = p2 @ s2" by blast
  from rx_star_sound [OF s4] obtain p3 where p3: "s3 = p3 @ s4" "\<forall>c\<in>set p3. is_star c"
    by blast
  from rx_star_sound [OF s5] obtain p4 where p4: "s4 = p4 @ s5" "\<forall>c\<in>set p4. is_space c"
    by blast
  from rx_char_sound [OF r] have s5': "s5 = 58 # r" by (auto simp: canonicalize_colon)
  have "header_here h s2"
    using st p3 p4 s5' by (intro header_here_intro [of h s2 p3 p4 r]) simp_all
  then have "header_occurs h ((p1 @ p2) @ s2)"
    by (intro header_occurs_append header_occurs_here)
  then show ?thesis using h(1) p1 p2 by auto
qed

text \<open>And it matches at every header that stands at the start index.\<close>

lemma rx_header_colon_complete:
  assumes "header_here h s"
  shows "rx_header_colon [h] s \<noteq> []"
proof -
  from assms obtain r q where r: "strip_header h s = Some r"
    and q: "dropWhile is_space (dropWhile (\<lambda>c. c = 42) r) = 58 # q"
    by (auto simp: header_here_def split: option.splits list.splits)
  have star: "is_star = (\<lambda>c. c = 42)" by (simp add: fun_eq_iff is_star_iff)
  have a: "dropWhile (\<lambda>c. c = 42) r \<in> set (rx_star is_star r)"
    unfolding star by (rule rx_star_dropWhile)
  have b: "58 # q \<in> set (rx_star is_space (dropWhile (\<lambda>c. c = 42) r))"
    using rx_star_dropWhile [of is_space "dropWhile (\<lambda>c. c = 42) r"] q by simp
  have c: "r \<in> set (rx_headers [h] s)"
    using r by (simp add: rx_headers_def rx_alt_def rx_lit_strip)
  have "q \<in> set (rx_seq [rx_char 58] (58 # q))" by simp
  with b have "q \<in> set (rx_seq [rx_spaces, rx_char 58] (dropWhile (\<lambda>c. c = 42) r))"
    unfolding rx_spaces_def by (subst rx_seq.simps) (simp only: set_concat set_map, blast)
  with a have "q \<in> set (rx_seq [rx_stars, rx_spaces, rx_char 58] r)"
    unfolding rx_stars_def by (subst rx_seq.simps) (simp only: set_concat set_map, blast)
  with c have "q \<in> set (rx_seq [rx_headers [h], rx_stars, rx_spaces, rx_char 58] s)"
    by (subst rx_seq.simps) (simp only: set_concat set_map, blast)
  with rx_star_self [of s is_space]
  have "q \<in> set (rx_seq [rx_spaces, rx_headers [h], rx_stars, rx_spaces, rx_char 58] s)"
    unfolding rx_spaces_def by (subst rx_seq.simps) (simp only: set_concat set_map, blast)
  with rx_star_self [of s is_star]
  have "q \<in> set (rx_seq [rx_stars, rx_spaces, rx_headers [h], rx_stars, rx_spaces, rx_char 58] s)"
    unfolding rx_stars_def by (subst rx_seq.simps) (simp only: set_concat set_map, blast)
  then have "q \<in> set (rx_header_colon [h] s)" by (simp only: rx_header_colon_def)
  then show ?thesis by auto
qed

lemma regex_exec_Some_suffix:
  "regex_exec m t = Some r \<Longrightarrow> \<exists>p u. t = p @ u \<and> m u = Some r"
proof (induction t)
  case Nil
  then show ?case by simp
next
  case (Cons x xs)
  show ?case
  proof (cases "m (x # xs)")
    case None
    with Cons.prems have "regex_exec m xs = Some r" by simp
    from Cons.IH [OF this] obtain p u where "xs = p @ u" "m u = Some r" by blast
    then have "x # xs = (x # p) @ u \<and> m u = Some r" by simp
    then show ?thesis by blast
  next
    case (Some a)
    with Cons.prems have "x # xs = [] @ (x # xs) \<and> m (x # xs) = Some r" by simp
    then show ?thesis by blast
  qed
qed

lemma regex_exec_here: "m u \<noteq> None \<Longrightarrow> regex_exec m u \<noteq> None"
  by (cases u) auto

lemma regex_exec_suffix: "m u \<noteq> None \<Longrightarrow> regex_exec m (p @ u) \<noteq> None"
  by (induction p) (auto simp: regex_exec_here split: option.splits)

lemma section_match_here_header:
  assumes "section_match_here cur ls s = Some c"
  shows "rx_header_colon cur s \<noteq> []"
proof
  assume "rx_header_colon cur s = []"
  then have "section_match_here cur ls s = None"
    by (simp add: section_match_here_def)
  with assms show False by simp
qed

lemma getSectionContent_no_header:
  assumes "\<forall>h\<in>set hs. \<not> header_occurs h t" and "hs \<noteq> []"
  shows "getSectionContent t hs = []"
proof (cases "regex_exec (section_match_here hs (lookaheadHeaders hs)) t")
  case None
  then show ?thesis by (simp add: getSectionContent_def)
next
  case (Some c)
  from regex_exec_Some_suffix [OF this] obtain p u where
    u: "t = p @ u" "section_match_here hs (lookaheadHeaders hs) u = Some c" by blast
  from rx_header_colon_sound [OF section_match_here_header [OF u(2)] assms(2)]
  obtain h where h: "h \<in> set hs" "header_occurs h u" by blast
  then have "header_occurs h t" using u(1) by (simp add: header_occurs_append)
  with assms(1) h(1) show ?thesis by blast
qed

text \<open>
  The test of the fallback branch, \<^verbatim>\<open>new RegExp(...).test(text)\<close>, holds exactly when
  the header occurs in the text.
\<close>

lemma header_test_iff: "header_test h t \<longleftrightarrow> header_occurs h t"
proof
  assume "header_test h t"
  then obtain r where
    "regex_exec (\<lambda>s. if rx_header_colon [h] s \<noteq> [] then Some () else None) t = Some r"
    by (auto simp: header_test_def)
  from regex_exec_Some_suffix [OF this] obtain p u where
    u: "t = p @ u" "rx_header_colon [h] u \<noteq> []" by (auto split: if_splits)
  from rx_header_colon_sound [OF u(2)] have "header_occurs h u" by simp
  then show "header_occurs h t" using u(1) by (simp add: header_occurs_append)
next
  assume "header_occurs h t"
  from header_occurs_split [OF this] obtain p u where u: "t = p @ u" "header_here h u"
    by blast
  let ?m = "\<lambda>s. if rx_header_colon [h] s \<noteq> [] then Some () else None"
  from rx_header_colon_complete [OF u(2)] have "?m u \<noteq> None" by simp
  then have "regex_exec ?m (p @ u) \<noteq> None" by (rule regex_exec_suffix)
  then show "header_test h t"
    using u(1) by (simp add: header_test_def)
qed

subsection \<open>The fallback\<close>

text \<open>
  Claim C2, as amended.  For every text in which none of the six headers occurs, where
  a header occurs when the text reads, at some index, as the header in any letter case,
  then any number of asterisks, then any number of white space characters, then a colon:
  parseSeoResponse returns the whole text, with every asterisk removed and trimmed, as
  the keywords, and the empty string as the title and as the localized title.
\<close>

theorem parseSeoResponse_fallback:
  assumes "\<forall>h\<in>set allHeaders. \<not> header_occurs h t"
  shows "parseSeoResponse (Some t) = \<lparr>title = [], russianTitle = [], keywords = clean (Some t)\<rparr>"
proof (cases "t = []")
  case True
  then show ?thesis by (simp add: parseSeoResponse_def empty_seo_def clean_def trim_def)
next
  case False
  have a: "getSectionContent t [hdr_Zagolovok, hdr_Title] = []"
    using assms by (intro getSectionContent_no_header) (simp_all add: allHeaders_def)
  have b: "getSectionContent t [hdr_Russian_Title, hdr_Russkiy_zagolovok] = []"
    using assms by (intro getSectionContent_no_header) (simp_all add: allHeaders_def)
  have c: "getSectionContent t [hdr_Klyuchevye_slova, hdr_Keywords] = []"
    using assms by (intro getSectionContent_no_header) (simp_all add: allHeaders_def)
  have d: "\<not> list_ex (\<lambda>h. header_test h t) allHeaders"
    using assms by (simp add: list_ex_iff header_test_iff)
  show ?thesis using False a b c d by (simp add: parseSeoResponse_def Let_def)
qed

subsection \<open>Evaluation on concrete texts\<close>

lemma rx_section_end_Nil: "rx_section_end ls [] = True"
  by (simp add: rx_section_end_def rx_alt_def)

lemma rx_section_end_Cons:
  "rx_section_end ls (x # xs) \<longleftrightarrow>
     rx_seq [rx_char 10, rx_spaces, rx_stars, rx_spaces, rx_headers ls,
             rx_stars, rx_spaces, rx_char 58] (x # xs) \<noteq> []"
  by (simp add: rx_section_end_def rx_alt_def)

text \<open>
  The rules that evaluate the parser on a text given by its code units.  A definition
  that takes the text is unfolded only once the text is a list with its first element
  in sight.
\<close>

lemmas header_eval =
  js_def allHeaders_def hdr_Zagolovok_def hdr_Title_def hdr_Russian_Title_def
  hdr_Russkiy_zagolovok_def hdr_Klyuchevye_slova_def hdr_Keywords_def

lemmas parser_eval =
  header_eval is_space_def canonicalize_def lower_unit_def toLowerCase_def trim_def
  is_star_def rx_stars_def rx_spaces_def
  rx_alt_def [of _ "[]"] rx_alt_def [of _ "x # xs" for x xs]
  rx_headers_def [of _ "[]"] rx_headers_def [of _ "x # xs" for x xs]
  rx_header_colon_def [of _ "[]"] rx_header_colon_def [of _ "x # xs" for x xs]
  rx_section_end_Nil rx_section_end_Cons section_match_here_def lookaheadHeaders_def
  getSectionContent_def header_test_def clean_def parseSeoResponse_def empty_seo_def Let_def

lemmas occurs_eval =
  header_eval header_here_def is_space_def canonicalize_def

theorem parseSeoResponse_fallback_witness:
  "parseSeoResponse (Some (js ''cat, pet, cute''))
     = \<lparr>title = [], russianTitle = [], keywords = js ''cat, pet, cute''\<rparr>"
proof -
  have "\<forall>h\<in>set allHeaders. \<not> header_occurs h (js ''cat, pet, cute'')"
    by (simp add: occurs_eval)
  from parseSeoResponse_fallback [OF this] show ?thesis
    by (simp add: clean_def trim_def js_def is_space_def)
qed

text \<open>
  Read letter for letter, with the colon right after the token, the claim fails: the
  texts \<^verbatim>\<open>title: x\<close> and \<^verbatim>\<open>Title : x\<close> hold no token followed by a colon in that
  sense, and the parser takes \<^verbatim>\<open>x\<close> as the title and leaves the keywords empty.
\<close>

theorem parseSeoResponse_fallback_literal_counterexample:
  "\<not> list_ex (\<lambda>h. occurs_literally (h @ [58]) (js ''title: x'')) allHeaders
   \<and> parseSeoResponse (Some (js ''title: x''))
       = \<lparr>title = js ''x'', russianTitle = [], keywords = []\<rparr>
   \<and> clean (Some (js ''title: x'')) = js ''title: x''
   \<and> \<not> list_ex (\<lambda>h. occurs_literally (h @ [58]) (js ''Title : x'')) allHeaders
   \<and> parseSeoResponse (Some (js ''Title : x''))
       = \<lparr>title = js ''x'', russianTitle = [], keywords = []\<rparr>
   \<and> clean (Some (js ''Title : x'')) = js ''Title : x''"
proof -
  have a: "\<not> list_ex (\<lambda>h. occurs_literally (h @ [58]) (js ''title: x'')) allHeaders"
    by (simp add: header_eval)
  have b: "parseSeoResponse (Some (js ''title: x''))
       = \<lparr>title = js ''x'', russianTitle = [], keywords = []\<rparr>"
    by (simp add: parser_eval)
  have c: "clean (Some (js ''title: x'')) = js ''title: x''"
    by (simp add: clean_def trim_def js_def is_space_def)
  have d: "\<not> list_ex (\<lambda>h. occurs_literally (h @ [58]) (js ''Title : x'')) allHeaders"
    by (simp add: header_eval)
  have e: "parseSeoResponse (Some (js ''Title : x''))
       = \<lparr>title = js ''x'', russianTitle = [], keywords = []\<rparr>"
    by (simp add: parser_eval)
  have f: "clean (Some (js ''Title : x'')) = js ''Title : x''"
    by (simp add: clean_def trim_def js_def is_space_def)
  from a b c d e f show ?thesis by blast
qed

text \<open>
  Claim C3.  For the text made of the line \<^verbatim>\<open>Zagolovok: Cats\<close> (the header in
  Cyrillic letters, as the source spells it), a line feed, and the line
  \<^verbatim>\<open>Keywords: cat, pet, cute\<close>, parseSeoResponse returns the title \<^verbatim>\<open>Cats\<close>, the empty
  string as the localized title, and the keywords \<^verbatim>\<open>cat, pet, cute\<close>.
\<close>

theorem parseSeoResponse_two_sections:
  "parseSeoResponse (Some (hdr_Zagolovok @ js '': Cats'' @ [10] @ js ''Keywords: cat, pet, cute''))
     = \<lparr>title = js ''Cats'', russianTitle = [], keywords = js ''cat, pet, cute''\<rparr>"
  by (simp add: parser_eval)

text \<open>
  Claim C1.  The claim says that a text with the three sections gives the same fields
  whatever the order of the sections, the letter case of the headers and the asterisks
  around them.  The parser does so for the letter case and the asterisks, and for the
  orders in which the title section stands before the localized title section (first
  three equations).  When the localized title section stands first, the pattern of the
  title, which is not tied to the start of a line, matches the end of the header
  \<^verbatim>\<open>Russian Title:\<close>, and the title becomes the content of that section together
  with the title section after it (fourth equation); the same happens with the Cyrillic
  headers, the header of the title being the end of the header of the localized title
  (fifth equation).
\<close>

theorem parseSeoResponse_section_order:
  "parseSeoResponse
     (Some (js ''Title: T'' @ [10] @ js ''Russian Title: R'' @ [10] @ js ''Keywords: K''))
     = \<lparr>title = js ''T'', russianTitle = js ''R'', keywords = js ''K''\<rparr>
   \<and> parseSeoResponse
     (Some (js ''Keywords: K'' @ [10] @ js ''Title: T'' @ [10] @ js ''Russian Title: R''))
     = \<lparr>title = js ''T'', russianTitle = js ''R'', keywords = js ''K''\<rparr>
   \<and> parseSeoResponse
     (Some (js ''**TITLE**: T'' @ [10] @ js ''**russian title:** R'' @ [10] @ js ''KEYWORDS: *K*''))
     = \<lparr>title = js ''T'', russianTitle = js ''R'', keywords = js ''K''\<rparr>
   \<and> parseSeoResponse
     (Some (js ''Russian Title: R'' @ [10] @ js ''Title: T'' @ [10] @ js ''Keywords: K''))
     = \<lparr>title = js ''R'' @ [10] @ js ''Title: T'', russianTitle = js ''R'', keywords = js ''K''\<rparr>
   \<and> parseSeoResponse
     (Some (hdr_Russkiy_zagolovok @ js '': R'' @ [10] @ hdr_Zagolovok @ js '': T'' @ [10]
            @ hdr_Klyuchevye_slova @ js '': K''))
     = \<lparr>title = js ''R'' @ [10] @ hdr_Zagolovok @ js '': T'', russianTitle = js ''R'',
        keywords = js ''K''\<rparr>"
proof -
  have 1: "parseSeoResponse
     (Some (js ''Title: T'' @ [10] @ js ''Russian Title: R'' @ [10] @ js ''Keywords: K''))
     = \<lparr>title = js ''T'', russianTitle = js ''R'', keywords = js ''K''\<rparr>"
    by (simp add: parser_eval)
  have 2: "parseSeoResponse
     (Some (js ''Keywords: K'' @ [10] @ js ''Title: T'' @ [10] @ js ''Russian Title: R''))
     = \<lparr>title = js ''T'', russianTitle = js ''R'', keywords = js ''K''\<rparr>"
    by (simp add: parser_eval)
  have 3: "parseSeoResponse
     (Some (js ''**TITLE**: T'' @ [10] @ js ''**russian title:** R'' @ [10] @ js ''KEYWORDS: *K*''))
     = \<lparr>title = js ''T'', russianTitle = js ''R'', keywords = js ''K''\<rparr>"
    by (simp add: parser_eval)
  have 4: "parseSeoResponse
     (Some (js ''Russian Title: R'' @ [10] @ js ''Title: T'' @ [10] @ js ''Keywords: K''))
     = \<lparr>title = js ''R'' @ [10] @ js ''Title: T'', russianTitle = js ''R'', keywords = js ''K''\<rparr>"
    by (simp add: parser_eval)
  have 5: "parseSeoResponse
     (Some (hdr_Russkiy_zagolovok @ js '': R'' @ [10] @ hdr_Zagolovok @ js '': T'' @ [10]
            @ hdr_Klyuchevye_slova @ js '': K''))
     = \<lparr>title = js ''R'' @ [10] @ hdr_Zagolovok @ js '': T'', russianTitle = js ''R'',
        keywords = js ''K''\<rparr>"
    by (simp add: parser_eval)
  from 1 2 3 4 5 show ?thesis by blast
qed

section \<open>Properties of the upload client\<close>

lemma poll_loop_done:
  "rf_state cur \<noteq> PROCESSING \<Longrightarrow> poll_loop get k cur = Some (Inr cur)"
  by (subst poll_loop.simps) simp

lemma poll_loop_step:
  "rf_state cur = PROCESSING \<Longrightarrow> get k = Inr f \<Longrightarrow>
     poll_loop get k cur = poll_loop get (Suc k) f"
  by (subst poll_loop.simps) simp

text \<open>
  The loop ends as soon as a call of \<^verbatim>\<open>get\<close> answers with a state other than
  PROCESSING, and its value is the file of that answer.
\<close>

lemma poll_loop_reaches:
  assumes "\<forall>j<n. \<exists>f. get (k + j) = Inr f \<and> rf_state f = PROCESSING"
    and "get (k + n) = Inr g" and "rf_state g \<noteq> PROCESSING"
    and "rf_state cur = PROCESSING"
  shows "poll_loop get k cur = Some (Inr g)"
  using assms
proof (induction n arbitrary: k cur)
  case 0
  then show ?case by (simp add: poll_loop_step poll_loop_done)
next
  case (Suc n)
  from Suc.prems(1) obtain f where f: "get k = Inr f" "rf_state f = PROCESSING"
    by force
  have "\<forall>j<n. \<exists>f. get (Suc k + j) = Inr f \<and> rf_state f = PROCESSING"
    using Suc.prems(1) by (metis Suc_less_eq add_Suc_shift)
  moreover have "get (Suc k + n) = Inr g" using Suc.prems(2) by simp
  ultimately have "poll_loop get (Suc k) f = Some (Inr g)"
    using Suc.IH Suc.prems(3) f(2) by blast
  then show ?case using poll_loop_step [of cur get k f] Suc.prems(4) f(1) by simp
qed

text \<open>
  Claim C5.  Let the upload succeed, let the calls of \<^verbatim>\<open>get\<close> number 0 to \<open>n - 1\<close>
  answer PROCESSING and let call number \<open>n\<close> answer with a file \<open>g\<close> in another state
  (the poll sequence leaves the processing state).  Then uploadFile returns: it polls
  until that answer, fails with the processing error exactly when the state of \<open>g\<close> is
  FAILED, and returns \<open>g\<close> otherwise, in particular when the file is ready (ACTIVE).
\<close>

theorem uploadFile_polls_until_settled:
  assumes up: "files_upload client = Inr uploadedFile"
    and proc: "\<forall>j<n. \<exists>f. files_get client (rf_name uploadedFile) j = Inr f
                          \<and> rf_state f = PROCESSING"
    and last: "files_get client (rf_name uploadedFile) n = Inr g"
    and settled: "rf_state g \<noteq> PROCESSING"
  shows "uploadFile client =
           Some (if rf_state g = FAILED then Inl (JsError processing_failed) else Inr g)
         \<and> (rf_state g = ACTIVE \<longrightarrow> uploadFile client = Some (Inr g))
         \<and> ((\<exists>e. uploadFile client = Some (Inl e)) \<longleftrightarrow> rf_state g = FAILED)"
proof -
  have r: "uploadFile client =
           Some (if rf_state g = FAILED then Inl (JsError processing_failed) else Inr g)"
  proof (cases n)
    case 0
    then show ?thesis
      using up last settled by (simp add: uploadFile_def poll_loop_done)
  next
    case (Suc m)
    from proc Suc obtain f0 where f0: "files_get client (rf_name uploadedFile) 0 = Inr f0"
      "rf_state f0 = PROCESSING" by auto
    have "\<forall>j<m. \<exists>f. files_get client (rf_name uploadedFile) (1 + j) = Inr f
                     \<and> rf_state f = PROCESSING"
      using proc Suc by simp
    moreover have "files_get client (rf_name uploadedFile) (1 + m) = Inr g"
      using last Suc by simp
    ultimately have "poll_loop (files_get client (rf_name uploadedFile)) 1 f0 = Some (Inr g)"
      using poll_loop_reaches [of m "files_get client (rf_name uploadedFile)" 1 g f0]
        settled f0(2)
      by blast
    then show ?thesis using up f0 by (simp add: uploadFile_def)
  qed
  then show ?thesis by auto
qed

theorem uploadFile_polls_until_settled_witness:
  "uploadFile (sample_service ACTIVE) = Some (Inr (sample_file (js ''a'') ACTIVE))
   \<and> uploadFile (sample_service FAILED) = Some (Inl (JsError processing_failed))"
proof -
  have a: "uploadFile (sample_service s) =
             Some (if rf_state (sample_file (js ''a'') s) = FAILED
                   then Inl (JsError processing_failed) else Inr (sample_file (js ''a'') s))"
    if "s \<noteq> PROCESSING" for s
  proof -
    have 1: "files_upload (sample_service s) = Inr (sample_file (js ''a'') PROCESSING)"
      by (simp add: sample_service_def)
    have 2: "\<forall>j<2. \<exists>f. files_get (sample_service s)
                 (rf_name (sample_file (js ''a'') PROCESSING)) j = Inr f
               \<and> rf_state f = PROCESSING"
      by (simp add: sample_service_def sample_file_def)
    have 3: "files_get (sample_service s) (rf_name (sample_file (js ''a'') PROCESSING)) 2
               = Inr (sample_file (js ''a'') s)"
      by (simp add: sample_service_def)
    have 4: "rf_state (sample_file (js ''a'') s) \<noteq> PROCESSING"
      using that by (simp add: sample_file_def)
    from uploadFile_polls_until_settled [OF 1 2 3 4] show ?thesis by blast
  qed
  show ?thesis using a [of ACTIVE] a [of FAILED] by (simp add: sample_file_def)
qed

section \<open>Properties of the video collection\<close>

subsection \<open>Removing a video\<close>

text \<open>
  Claim C9.  For every id that no video of the collection has, handleRemoveVideo
  changes nothing: the collection, the active id, the displayed state and the list of
  released local handles are those of the state before.
\<close>

theorem handleRemoveVideo_unknown_id:
  assumes "idToRemove \<notin> v_id ` set (videoFiles st)"
  shows "handleRemoveVideo st idToRemove = st"
proof -
  have "find (\<lambda>v. v_id v = idToRemove) (videoFiles st) = None"
    using assms by (auto simp: find_None_iff)
  then show ?thesis by (simp add: handleRemoveVideo_def)
qed

lemmas sample_defs = sample_file_def sample_service_def sample_video_def sample_state_def
  sample_mode_def sample_timecodes_def sample_generator_def sample_answer_def
  sample_parsed_video_def sample_captioned_video_def

theorem handleRemoveVideo_unknown_id_witness:
  "handleRemoveVideo
     (sample_state [sample_video (js ''a''), sample_video (js ''b'')] (Some (js ''a'')) False)
     (js ''z'')
   = sample_state [sample_video (js ''a''), sample_video (js ''b'')] (Some (js ''a'')) False"
proof -
  have "js ''z'' \<notin> v_id ` set (videoFiles
          (sample_state [sample_video (js ''a''), sample_video (js ''b'')] (Some (js ''a'')) False))"
    by (simp add: sample_state_def sample_video_def js_def)
  from handleRemoveVideo_unknown_id [OF this] show ?thesis .
qed

lemma findIndex_find: "findIndex P xs = Some k \<Longrightarrow> find P xs = Some (xs ! k)"
  by (induction xs arbitrary: k) (auto split: if_splits)

lemma find_distinct_nth:
  "distinct (map f xs) \<Longrightarrow> k < length xs \<Longrightarrow> find (\<lambda>v. f v = f (xs ! k)) xs = Some (xs ! k)"
proof (induction xs arbitrary: k)
  case Nil
  then show ?case by simp
next
  case (Cons x xs)
  then show ?case
    by (cases k) (auto simp: image_iff)
qed

text \<open>
  Claim C6.  When handleRemoveVideo removes the active video, whose first index in the
  collection is \<open>originalIndex\<close>, and some video remains, the active id becomes the id
  of the remaining video at index \<open>min originalIndex (remainingCount - 1)\<close>, and that
  video is the active video (ids being distinct and not empty, as generated ids are);
  when no video remains, no video is active.
\<close>

theorem handleRemoveVideo_promotes_closest:
  assumes act: "activeVideoId st = Some idToRemove"
    and idx: "findIndex (\<lambda>v. v_id v = idToRemove) (videoFiles st) = Some originalIndex"
  shows "let remaining = filter (\<lambda>v. v_id v \<noteq> idToRemove) (videoFiles st);
             newIndex = min originalIndex (length remaining - 1);
             st' = handleRemoveVideo st idToRemove
         in videoFiles st' = remaining
            \<and> (remaining \<noteq> [] \<longrightarrow>
                 newIndex < length remaining
                 \<and> activeVideoId st' = Some (v_id (remaining ! newIndex))
                 \<and> (distinct (map v_id (videoFiles st)) \<and> [] \<notin> v_id ` set (videoFiles st)
                      \<longrightarrow> activeVideo st' = Some (remaining ! newIndex)))
            \<and> (remaining = [] \<longrightarrow> activeVideoId st' = None \<and> activeVideo st' = None)"
proof -
  define remaining where "remaining = filter (\<lambda>v. v_id v \<noteq> idToRemove) (videoFiles st)"
  define newIndex where "newIndex = min originalIndex (length remaining - 1)"
  have fnd: "find (\<lambda>v. v_id v = idToRemove) (videoFiles st) = Some (videoFiles st ! originalIndex)"
    using idx by (rule findIndex_find)
  have vf: "videoFiles (handleRemoveVideo st idToRemove) = remaining"
    using fnd idx act by (simp add: handleRemoveVideo_def remaining_def Let_def)
  have e: "activeVideoId (handleRemoveVideo st idToRemove) = None" if "remaining = []"
    using that fnd idx act by (simp add: handleRemoveVideo_def remaining_def Let_def)
  have n: "activeVideoId (handleRemoveVideo st idToRemove) = Some (v_id (remaining ! newIndex))"
    if "remaining \<noteq> []"
    using that fnd idx act
    by (simp add: handleRemoveVideo_def remaining_def newIndex_def Let_def)
  have lt: "newIndex < length remaining" if "remaining \<noteq> []"
    using that by (cases remaining) (simp_all add: newIndex_def min_def)
  have av: "activeVideo (handleRemoveVideo st idToRemove) = Some (remaining ! newIndex)"
    if ne: "remaining \<noteq> []" and d: "distinct (map v_id (videoFiles st))"
      and nonempty: "[] \<notin> v_id ` set (videoFiles st)"
  proof -
    have d': "distinct (map v_id remaining)"
      using d unfolding remaining_def by (rule distinct_map_filter)
    have "remaining ! newIndex \<in> set (videoFiles st)"
      using lt [OF ne] nth_mem [of newIndex remaining] by (auto simp: remaining_def)
    then have "v_id (remaining ! newIndex) \<noteq> []" using nonempty by force
    then show ?thesis
      using n [OF ne] vf find_distinct_nth [OF d' lt [OF ne]]
      by (simp add: activeVideo_def)
  qed
  have av0: "activeVideo (handleRemoveVideo st idToRemove) = None" if "remaining = []"
    using e [OF that] by (simp add: activeVideo_def)
  show ?thesis
    unfolding Let_def remaining_def [symmetric] newIndex_def [symmetric]
    using vf e n lt av av0 by blast
qed

theorem handleRemoveVideo_promotes_closest_witness:
  "activeVideo (handleRemoveVideo
     (sample_state [sample_video (js ''a''), sample_video (js ''b''), sample_video (js ''c'')]
        (Some (js ''c'')) False) (js ''c''))
     = Some (sample_video (js ''b''))
   \<and> activeVideo (handleRemoveVideo
     (sample_state [sample_video (js ''a''), sample_video (js ''b''), sample_video (js ''c'')]
        (Some (js ''a'')) False) (js ''a''))
     = Some (sample_video (js ''b''))
   \<and> activeVideoId (handleRemoveVideo
     (sample_state [sample_video (js ''a'')] (Some (js ''a'')) False) (js ''a'')) = None"
proof -
  let ?abc = "[sample_video (js ''a''), sample_video (js ''b''), sample_video (js ''c'')]"
  have d: "distinct (map v_id ?abc) \<and> [] \<notin> v_id ` set ?abc"
    by (simp add: sample_video_def js_def)
  have 1: "activeVideoId (sample_state ?abc (Some (js ''c'')) False) = Some (js ''c'')"
    by (simp add: sample_state_def)
  have 2: "findIndex (\<lambda>v. v_id v = js ''c'') (videoFiles (sample_state ?abc (Some (js ''c'')) False))
            = Some 2"
    by (simp add: sample_state_def sample_video_def js_def)
  have c: "activeVideo (handleRemoveVideo (sample_state ?abc (Some (js ''c'')) False) (js ''c''))
            = Some (sample_video (js ''b''))"
    using handleRemoveVideo_promotes_closest [OF 1 2] d
    by (simp add: Let_def sample_state_def sample_video_def js_def)
  have 3: "activeVideoId (sample_state ?abc (Some (js ''a'')) False) = Some (js ''a'')"
    by (simp add: sample_state_def)
  have 4: "findIndex (\<lambda>v. v_id v = js ''a'') (videoFiles (sample_state ?abc (Some (js ''a'')) False))
            = Some 0"
    by (simp add: sample_state_def sample_video_def js_def)
  have a: "activeVideo (handleRemoveVideo (sample_state ?abc (Some (js ''a'')) False) (js ''a''))
            = Some (sample_video (js ''b''))"
    using handleRemoveVideo_promotes_closest [OF 3 4] d
    by (simp add: Let_def sample_state_def sample_video_def js_def)
  have 5: "activeVideoId (sample_state [sample_video (js ''a'')] (Some (js ''a'')) False)
            = Some (js ''a'')"
    by (simp add: sample_state_def)
  have 6: "findIndex (\<lambda>v. v_id v = js ''a'')
             (videoFiles (sample_state [sample_video (js ''a'')] (Some (js ''a'')) False)) = Some 0"
    by (simp add: sample_state_def sample_video_def js_def)
  have e: "activeVideoId (handleRemoveVideo
             (sample_state [sample_video (js ''a'')] (Some (js ''a'')) False) (js ''a'')) = None"
    using handleRemoveVideo_promotes_closest [OF 5 6]
    by (simp add: Let_def sample_state_def sample_video_def js_def)
  from c a e show ?thesis by blast
qed

subsection \<open>Switching the active video\<close>

lemma mode_names_differ: "MODE_SUBTITLES \<noteq> MODE_SEO"
  by (simp add: MODE_SUBTITLES_def MODE_SEO_def)

lemma parseSeoResponse_empty:
  "parseSeoResponse None = empty_seo" "parseSeoResponse (Some []) = empty_seo"
  by (simp_all add: parseSeoResponse_def)

lemma restore_effect_found:
  assumes "activeVideo st = Some v"
  shows "restore_effect st =
     (if has_seo v then
        st\<lparr>seoData := the (v_seoData v),
           textResponse := (case v_textResponse v of
                              None \<Rightarrow> None
                            | Some t \<Rightarrow> if t = [] then None else Some t),
           activeMode := Some MODE_SEO, correctionText := []\<rparr>
      else
        (case v_timecodeList v of
           Some l \<Rightarrow>
             st\<lparr>timecodeList := Some l, textResponse := None,
                activeMode := Some MODE_SUBTITLES, seoData := empty_seo, correctionText := []\<rparr>
         | None \<Rightarrow>
             st\<lparr>timecodeList := None, textResponse := None,
                seoData := empty_seo, activeMode := None, correctionText := []\<rparr>))"
  using assms
  by (simp add: restore_effect_def has_seo_def Let_def split: option.splits)

text \<open>
  Claim C8, as amended.  Let \<open>i\<close> be a non-empty id and \<open>v\<close> the first video of the
  collection with that id.  When \<open>i\<close> is the active id already, setActive changes
  nothing.  Otherwise it makes \<open>i\<close> the active id and
  \<^item> when \<open>v\<close> has cached fields whose title or keywords are not empty, and their
    title and keywords are those that parseSeoResponse finds in the cached text of
    \<open>v\<close>, it shows these fields and the cached text, in the SEO mode;
  \<^item> when \<open>v\<close> has no such cached fields and has a cached timecode list, it shows
    that list, no text and empty fields;
  \<^item> when \<open>v\<close> has neither, it clears the display: empty fields, no timecode list,
    no text, no active mode.
\<close>

theorem setActive_restores_cached_results:
  assumes found: "find (\<lambda>w. v_id w = i) (videoFiles st) = Some v"
    and truthy: "i \<noteq> []"
  shows "(activeVideoId st = Some i \<longrightarrow> setActive st i = st)
    \<and> (activeVideoId st \<noteq> Some i \<longrightarrow>
         activeVideoId (setActive st i) = Some i
         \<and> (has_seo v \<and> cache_consistent v
            \<longrightarrow> Some (seoData (setActive st i)) = v_seoData v
                \<and> textResponse (setActive st i) = v_textResponse v
                \<and> activeMode (setActive st i) = Some MODE_SEO)
         \<and> (\<not> has_seo v \<and> v_timecodeList v \<noteq> None
            \<longrightarrow> timecodeList (setActive st i) = v_timecodeList v
                \<and> textResponse (setActive st i) = None
                \<and> seoData (setActive st i) = empty_seo
                \<and> activeMode (setActive st i) = Some MODE_SUBTITLES)
         \<and> (\<not> has_seo v \<and> v_timecodeList v = None
            \<longrightarrow> timecodeList (setActive st i) = None
                \<and> textResponse (setActive st i) = None
                \<and> seoData (setActive st i) = empty_seo
                \<and> activeMode (setActive st i) = None))"
proof -
  have same: "setActive st i = st" if "activeVideoId st = Some i"
    using that by (simp add: setActive_def)
  have other: "activeVideoId (setActive st i) = Some i
         \<and> (has_seo v \<and> cache_consistent v
            \<longrightarrow> Some (seoData (setActive st i)) = v_seoData v
                \<and> textResponse (setActive st i) = v_textResponse v
                \<and> activeMode (setActive st i) = Some MODE_SEO)
         \<and> (\<not> has_seo v \<and> v_timecodeList v \<noteq> None
            \<longrightarrow> timecodeList (setActive st i) = v_timecodeList v
                \<and> textResponse (setActive st i) = None
                \<and> seoData (setActive st i) = empty_seo
                \<and> activeMode (setActive st i) = Some MODE_SUBTITLES)
         \<and> (\<not> has_seo v \<and> v_timecodeList v = None
            \<longrightarrow> timecodeList (setActive st i) = None
                \<and> textResponse (setActive st i) = None
                \<and> seoData (setActive st i) = empty_seo
                \<and> activeMode (setActive st i) = None)"
    if switch: "activeVideoId st \<noteq> Some i"
  proof -
    define s1 where "s1 = st\<lparr>activeVideoId := Some i\<rparr>"
    have av: "activeVideo s1 = Some v"
      using found truthy by (simp add: activeVideo_def s1_def)
    note r = restore_effect_found [OF av]
    have id2: "activeVideoId (restore_effect s1) = activeVideoId s1"
      unfolding r by (simp split: option.splits)
    have sa: "setActive st i =
        (if textResponse (restore_effect s1) \<noteq> textResponse s1
            \<or> activeMode (restore_effect s1) \<noteq> activeMode s1
         then sync_effect (restore_effect s1) else restore_effect s1)"
      using switch id2 by (simp add: setActive_def Let_def s1_def)
    have sync_id: "activeVideoId (sync_effect s) = activeVideoId s" for s
      by (simp add: sync_effect_def Let_def)
    have c0: "activeVideoId (setActive st i) = Some i"
      unfolding sa using id2 by (simp add: sync_id s1_def)
    have c1: "Some (seoData (setActive st i)) = v_seoData v
             \<and> textResponse (setActive st i) = v_textResponse v
             \<and> activeMode (setActive st i) = Some MODE_SEO"
      if h: "has_seo v" and cc: "cache_consistent v"
    proof -
      from h obtain d where d: "v_seoData v = Some d" "title d \<noteq> [] \<or> keywords d \<noteq> []"
        by (auto simp: has_seo_def split: option.splits)
      from cc d(1) have p: "title (parseSeoResponse (v_textResponse v)) = title d"
        "keywords (parseSeoResponse (v_textResponse v)) = keywords d"
        by (simp_all add: cache_consistent_def)
      have "v_textResponse v \<noteq> None"
      proof
        assume "v_textResponse v = None"
        with p d(2) show False by (simp add: parseSeoResponse_empty empty_seo_def)
      qed
      moreover have "v_textResponse v \<noteq> Some []"
      proof
        assume "v_textResponse v = Some []"
        with p d(2) show False by (simp add: parseSeoResponse_empty empty_seo_def)
      qed
      ultimately obtain t where t: "v_textResponse v = Some t" "t \<noteq> []" by auto
      have re: "restore_effect s1 =
          s1\<lparr>seoData := d, textResponse := Some t, activeMode := Some MODE_SEO,
             correctionText := []\<rparr>"
        unfolding r using h d t by simp
      have "sync_effect (restore_effect s1) = restore_effect s1"
        unfolding re using p t by (simp add: sync_effect_def Let_def)
      then have "setActive st i = restore_effect s1" unfolding sa by simp
      then show ?thesis using re d t by simp
    qed
    have c2: "timecodeList (setActive st i) = v_timecodeList v
             \<and> textResponse (setActive st i) = None
             \<and> seoData (setActive st i) = empty_seo
             \<and> activeMode (setActive st i) = Some MODE_SUBTITLES"
      if h: "\<not> has_seo v" and l: "v_timecodeList v \<noteq> None"
    proof -
      from l obtain tl where tl: "v_timecodeList v = Some tl" by auto
      have re: "restore_effect s1 =
          s1\<lparr>timecodeList := Some tl, textResponse := None,
             activeMode := Some MODE_SUBTITLES, seoData := empty_seo, correctionText := []\<rparr>"
        unfolding r using h tl by simp
      have "sync_effect (restore_effect s1) = restore_effect s1"
        unfolding re by (simp add: sync_effect_def mode_names_differ)
      then have "setActive st i = restore_effect s1" unfolding sa by simp
      then show ?thesis using re tl by simp
    qed
    have c3: "timecodeList (setActive st i) = None
             \<and> textResponse (setActive st i) = None
             \<and> seoData (setActive st i) = empty_seo
             \<and> activeMode (setActive st i) = None"
      if h: "\<not> has_seo v" and l: "v_timecodeList v = None"
    proof -
      have re: "restore_effect s1 =
          s1\<lparr>timecodeList := None, textResponse := None,
             seoData := empty_seo, activeMode := None, correctionText := []\<rparr>"
        unfolding r using h l by simp
      have "sync_effect (restore_effect s1) = restore_effect s1"
        unfolding re by (simp add: sync_effect_def)
      then have "setActive st i = restore_effect s1" unfolding sa by simp
      then show ?thesis using re by simp
    qed
    from c0 c1 c2 c3 show ?thesis by blast
  qed
  from same other show ?thesis by blast
qed

lemma sample_answer_parsed:
  "parseSeoResponse (Some sample_answer) = \<lparr>title = [], russianTitle = js ''X'', keywords = []\<rparr>"
  by (simp add: sample_answer_def parser_eval)

lemma title_answer_parsed:
  "parseSeoResponse (Some (js ''Title: Cats''))
     = \<lparr>title = js ''Cats'', russianTitle = [], keywords = []\<rparr>"
  by (simp add: parser_eval)

lemma new_answer_parsed:
  "parseSeoResponse (Some (js ''Title: New''))
     = \<lparr>title = js ''New'', russianTitle = [], keywords = []\<rparr>"
  by (simp add: parser_eval)

theorem setActive_restores_cached_results_witness:
  "seoData (setActive
      (sample_state [sample_video (js ''a''), sample_parsed_video (js ''b'') (js ''Title: Cats'')]
         (Some (js ''a'')) False) (js ''b''))
     = \<lparr>title = js ''Cats'', russianTitle = [], keywords = []\<rparr>
   \<and> textResponse (setActive
      (sample_state [sample_video (js ''a''), sample_parsed_video (js ''b'') (js ''Title: Cats'')]
         (Some (js ''a'')) False) (js ''b''))
     = Some (js ''Title: Cats'')
   \<and> timecodeList (setActive
      (sample_state [sample_video (js ''a''), sample_captioned_video (js ''b'')]
         (Some (js ''a'')) False) (js ''b''))
     = Some (process_timecodes sample_timecodes)
   \<and> setActive
      (sample_state [sample_video (js ''a''), sample_captioned_video (js ''b'')]
         (Some (js ''b'')) False) (js ''b'')
     = sample_state [sample_video (js ''a''), sample_captioned_video (js ''b'')]
         (Some (js ''b'')) False"
proof -
  let ?v = "sample_parsed_video (js ''b'') (js ''Title: Cats'')"
  let ?st = "sample_state [sample_video (js ''a''), ?v] (Some (js ''a'')) False"
  have 1: "find (\<lambda>w. v_id w = js ''b'') (videoFiles ?st) = Some ?v"
    by (simp add: sample_state_def sample_video_def sample_parsed_video_def js_def)
  have 2: "js ''b'' \<noteq> []" by (simp add: js_def)
  have 3: "activeVideoId ?st \<noteq> Some (js ''b'')" by (simp add: sample_state_def js_def)
  have 4: "has_seo ?v \<and> cache_consistent ?v"
    by (simp add: has_seo_def cache_consistent_def sample_parsed_video_def title_answer_parsed)
       (simp add: js_def)
  have a: "seoData (setActive ?st (js ''b'')) = \<lparr>title = js ''Cats'', russianTitle = [], keywords = []\<rparr>
      \<and> textResponse (setActive ?st (js ''b'')) = Some (js ''Title: Cats'')"
    using setActive_restores_cached_results [OF 1 2] 3 4
    by (simp add: sample_parsed_video_def title_answer_parsed)
  let ?w = "sample_captioned_video (js ''b'')"
  let ?su = "sample_state [sample_video (js ''a''), ?w] (Some (js ''a'')) False"
  have 5: "find (\<lambda>w. v_id w = js ''b'') (videoFiles ?su) = Some ?w"
    by (simp add: sample_state_def sample_video_def sample_captioned_video_def js_def)
  have 6: "activeVideoId ?su \<noteq> Some (js ''b'')" by (simp add: sample_state_def js_def)
  have 7: "\<not> has_seo ?w \<and> v_timecodeList ?w \<noteq> None"
    by (simp add: has_seo_def sample_captioned_video_def sample_video_def)
  have b: "timecodeList (setActive ?su (js ''b'')) = Some (process_timecodes sample_timecodes)"
    using setActive_restores_cached_results [OF 5 2] 6 7
    by (simp add: sample_captioned_video_def)
  let ?sv = "sample_state [sample_video (js ''a''), ?w] (Some (js ''b'')) False"
  have 8: "find (\<lambda>w. v_id w = js ''b'') (videoFiles ?sv) = Some ?w"
    by (simp add: sample_state_def sample_video_def sample_captioned_video_def js_def)
  have 9: "activeVideoId ?sv = Some (js ''b'')" by (simp add: sample_state_def)
  have c: "setActive ?sv (js ''b'') = ?sv"
    using setActive_restores_cached_results [OF 8 2] 9 by blast
  from a b c show ?thesis by blast
qed

text \<open>
  The claim as stated fails.  A video whose cached fields hold a localized title only
  (the parse of the sample answer) has a cached text and cached fields, and the display
  is cleared all the same.  For the id that is active already the display is left as it
  is: after a generation run that failed for the active video, whose entry holds a
  cached timecode list, the display shows the error and no list, before and after
  setActive.  And the fields shown are the cached ones only when these agree with the
  cached text: for an entry whose cached title is not the title in its cached text, the
  second effect replaces the cached fields, and the display shows the parse of the text.
\<close>

theorem setActive_restores_cached_results_counterexample:
  "v_textResponse (sample_parsed_video (js ''b'') sample_answer) = Some sample_answer
   \<and> v_seoData (sample_parsed_video (js ''b'') sample_answer)
       = Some \<lparr>title = [], russianTitle = js ''X'', keywords = []\<rparr>
   \<and> seoData (setActive
        (sample_state [sample_video (js ''a''), sample_parsed_video (js ''b'') sample_answer]
           (Some (js ''a'')) False) (js ''b'')) = empty_seo
   \<and> textResponse (setActive
        (sample_state [sample_video (js ''a''), sample_parsed_video (js ''b'') sample_answer]
           (Some (js ''a'')) False) (js ''b'')) = None
   \<and> find (\<lambda>w. v_id w = js ''a'')
        (videoFiles (onModeSelect (sample_generator (js ''a'')) sample_mode (js ''captions'')
           (sample_state [sample_captioned_video (js ''a'')] (Some (js ''a'')) False)))
       = Some (sample_captioned_video (js ''a''))
   \<and> timecodeList (setActive
        (onModeSelect (sample_generator (js ''a'')) sample_mode (js ''captions'')
           (sample_state [sample_captioned_video (js ''a'')] (Some (js ''a'')) False))
        (js ''a'')) = None
   \<and> textResponse (setActive
        (onModeSelect (sample_generator (js ''a'')) sample_mode (js ''captions'')
           (sample_state [sample_captioned_video (js ''a'')] (Some (js ''a'')) False))
        (js ''a'')) = Some (error_prefix @ js ''quota'')
   \<and> v_seoData (sample_inconsistent_video (js ''b''))
       = Some \<lparr>title = js ''Old'', russianTitle = [], keywords = []\<rparr>
   \<and> seoData (setActive
        (sample_state [sample_video (js ''a''), sample_inconsistent_video (js ''b'')]
           (Some (js ''a'')) False) (js ''b''))
       = \<lparr>title = js ''New'', russianTitle = [], keywords = []\<rparr>"
proof -
  let ?v = "sample_parsed_video (js ''b'') sample_answer"
  let ?st = "sample_state [sample_video (js ''a''), ?v] (Some (js ''a'')) False"
  have 1: "v_textResponse ?v = Some sample_answer"
    by (simp add: sample_parsed_video_def)
  have 2: "v_seoData ?v = Some \<lparr>title = [], russianTitle = js ''X'', keywords = []\<rparr>"
    by (simp add: sample_parsed_video_def sample_answer_parsed)
  have av: "activeVideo (?st\<lparr>activeVideoId := Some (js ''b'')\<rparr>) = Some ?v"
    by (simp add: activeVideo_def sample_state_def sample_video_def sample_parsed_video_def js_def)
  have hs: "\<not> has_seo ?v" "v_timecodeList ?v = None"
    by (simp_all add: has_seo_def 2) (simp add: sample_parsed_video_def sample_video_def)
  have sw: "activeVideoId ?st \<noteq> Some (js ''b'')" by (simp add: sample_state_def js_def)
  have s: "setActive ?st (js ''b'') =
      ?st\<lparr>activeVideoId := Some (js ''b''), timecodeList := None, textResponse := None,
           seoData := empty_seo, activeMode := None, correctionText := []\<rparr>"
    using sw hs
    by (simp add: setActive_def Let_def restore_effect_found [OF av] sync_effect_def)
  have 3: "seoData (setActive ?st (js ''b'')) = empty_seo" unfolding s by simp
  have 4: "textResponse (setActive ?st (js ''b'')) = None" unfolding s by simp
  let ?run = "onModeSelect (sample_generator (js ''a'')) sample_mode (js ''captions'')
           (sample_state [sample_captioned_video (js ''a'')] (Some (js ''a'')) False)"
  have run: "?run =
      (sample_state [sample_captioned_video (js ''a'')] (Some (js ''a'')) False)
        \<lparr>activeMode := Some (js ''captions''), textResponse := Some (error_prefix @ js ''quota'')\<rparr>"
    by (simp add: sample_defs onModeSelect_def onModeSelect_try_def targets_def basePrompt_def
        run_task_def task_value_def update_entry_def update_active_view_def trim_def Let_def
        empty_seo_def)
  have same: "setActive ?run (js ''a'') = ?run"
    unfolding run by (simp add: setActive_def sample_state_def)
  have 5: "find (\<lambda>w. v_id w = js ''a'') (videoFiles ?run) = Some (sample_captioned_video (js ''a''))"
    unfolding run by (simp add: sample_state_def sample_captioned_video_def sample_video_def)
  have 6: "timecodeList (setActive ?run (js ''a'')) = None"
    unfolding same unfolding run by (simp add: sample_state_def)
  have 7: "textResponse (setActive ?run (js ''a'')) = Some (error_prefix @ js ''quota'')"
    unfolding same unfolding run by simp
  let ?u = "sample_inconsistent_video (js ''b'')"
  let ?su = "sample_state [sample_video (js ''a''), ?u] (Some (js ''a'')) False"
  have 8: "v_seoData ?u = Some \<lparr>title = js ''Old'', russianTitle = [], keywords = []\<rparr>"
    by (simp add: sample_inconsistent_video_def)
  have avu: "activeVideo (?su\<lparr>activeVideoId := Some (js ''b'')\<rparr>) = Some ?u"
    by (simp add: activeVideo_def sample_state_def sample_video_def
        sample_inconsistent_video_def js_def)
  have hu: "has_seo ?u" by (simp add: has_seo_def 8) (simp add: js_def)
  have tu: "v_textResponse ?u = Some (js ''Title: New'')" "js ''Title: New'' \<noteq> []"
    "js ''New'' \<noteq> js ''Old''"
    by (simp_all add: sample_inconsistent_video_def) (simp_all add: js_def)
  have swu: "activeVideoId ?su \<noteq> Some (js ''b'')" by (simp add: sample_state_def js_def)
  have tr: "textResponse ?su = None" by (simp add: sample_state_def)
  have 9: "seoData (setActive ?su (js ''b''))
       = \<lparr>title = js ''New'', russianTitle = [], keywords = []\<rparr>"
    using swu hu tu tr 8
    by (simp add: setActive_def Let_def restore_effect_found [OF avu] sync_effect_def
        new_answer_parsed)
  from 1 2 3 4 5 6 7 8 9 show ?thesis by blast
qed

subsection \<open>Running a mode\<close>

lemma promise_all_Inr: "promise_all (map (\<lambda>x. Inr (f x)) xs) = Inr (map f xs)"
  by (induction xs) simp_all

text \<open>No task rejects, so \<^verbatim>\<open>Promise.all\<close> resolves with the value of every task.\<close>

lemma promise_all_run_task:
  "promise_all (map (run_task gen p b) vs) = Inr (map (task_value gen p b) vs)"
proof -
  have "map (run_task gen p b) vs = map (\<lambda>v. Inr (task_value gen p b v)) vs"
    by (simp add: run_task_def)
  then show ?thesis by (simp only: promise_all_Inr)
qed

lemma find_map_key:
  assumes "\<And>x. k (f x) = g x"
  shows "find (\<lambda>r. k r = i) (map f xs) = map_option f (find (\<lambda>x. g x = i) xs)"
  by (induction xs) (simp_all add: assms)

lemma find_distinct_key:
  "distinct (map f xs) \<Longrightarrow> x \<in> set xs \<Longrightarrow> find (\<lambda>y. f y = f x) xs = Some x"
  by (induction xs) (auto simp: image_iff)

lemma task_value_id: "r_id (task_value gen p b v) = v_id v"
  by (simp add: task_value_def split: sum.splits)

lemma find_results:
  assumes "distinct (map v_id vs)" and "v \<in> set vs"
  shows "find (\<lambda>r. r_id r = v_id v) (map (task_value gen p b) vs) = Some (task_value gen p b v)"
proof -
  have "find (\<lambda>r. r_id r = v_id v) (map (task_value gen p b) vs)
        = map_option (task_value gen p b) (find (\<lambda>x. v_id x = v_id v) vs)"
    by (rule find_map_key) (rule task_value_id)
  then show ?thesis using find_distinct_key [OF assms] by simp
qed

lemma update_entry_id: "v_id (update_entry b rs v) = v_id v"
  by (simp add: update_entry_def split: option.splits task_result.splits)

lemma update_active_view_videoFiles:
  "videoFiles (update_active_view b rs a st) = videoFiles st"
  by (simp add: update_active_view_def split: option.splits task_result.splits)

text \<open>The body of the outer \<^verbatim>\<open>try\<close> never throws.\<close>

lemma onModeSelect_try_Inr:
  "onModeSelect_try gen cfg st st1 =
     Inr (update_active_view (isText cfg)
            (map (task_value gen (basePrompt cfg st) (isText cfg)) (targets st))
            (activeVideoId st)
            (st1\<lparr>videoFiles := map (update_entry (isText cfg)
               (map (task_value gen (basePrompt cfg st) (isText cfg)) (targets st)))
               (videoFiles st1)\<rparr>))"
  by (simp add: onModeSelect_try_def promise_all_run_task)

lemma targets_subset: "set (targets st) \<subseteq> set (videoFiles st)"
  by (auto simp: targets_def)

lemma targets_distinct:
  "distinct (map v_id (videoFiles st)) \<Longrightarrow> distinct (map v_id (targets st))"
  by (simp add: targets_def distinct_map_filter)

text \<open>The entry of a video after the run is the update of its entry before the run.\<close>

lemma onModeSelect_record:
  assumes d: "distinct (map v_id (videoFiles st))" and v: "v \<in> set (videoFiles st)"
    and t: "targets st \<noteq> []"
  shows "find (\<lambda>w. v_id w = v_id v) (videoFiles (onModeSelect gen cfg mode st))
         = Some (update_entry (isText cfg)
                   (map (task_value gen (basePrompt cfg st) (isText cfg)) (targets st)) v)"
proof -
  let ?rs = "map (task_value gen (basePrompt cfg st) (isText cfg)) (targets st)"
  have vf: "videoFiles (onModeSelect gen cfg mode st)
            = map (update_entry (isText cfg) ?rs) (videoFiles st)"
    using t
    by (simp add: onModeSelect_def Let_def onModeSelect_try_Inr update_active_view_videoFiles)
  have "find (\<lambda>w. v_id w = v_id v) (map (update_entry (isText cfg) ?rs) (videoFiles st))
        = map_option (update_entry (isText cfg) ?rs) (find (\<lambda>x. v_id x = v_id v) (videoFiles st))"
    by (rule find_map_key) (rule update_entry_id)
  then show ?thesis using vf find_distinct_key [OF d v] by simp
qed

lemma onModeSelect_textResponse:
  assumes t: "targets st \<noteq> []"
  shows "textResponse (onModeSelect gen cfg mode st)
         = textResponse (update_active_view (isText cfg)
              (map (task_value gen (basePrompt cfg st) (isText cfg)) (targets st))
              (activeVideoId st)
              (st\<lparr>textResponse := None\<rparr>))"
  using t
  by (simp add: onModeSelect_def Let_def onModeSelect_try_Inr update_active_view_def
      split: option.splits task_result.splits)

text \<open>
  \<^verbatim>\<open>replaceAll\<close> turns each occurrence of backslash, apostrophe into an apostrophe and
  leaves a text without an occurrence as it is.
\<close>

lemma unescape_apostrophes_occurrence:
  "unescape_apostrophes (p @ [92, 39] @ q)
     = unescape_apostrophes p @ [39] @ unescape_apostrophes q"
  by (induction p rule: unescape_apostrophes.induct) auto

lemma unescape_apostrophes_none:
  "92 \<notin> set s \<Longrightarrow> unescape_apostrophes s = s"
  by (induction s rule: unescape_apostrophes.induct) auto

lemma setTimecodes_caches_unescaped:
  assumes "distinct (map v_id (videoFiles st))" and "v \<in> set (videoFiles st)"
    and "activeVideoId st = Some (v_id v)"
  shows "find (\<lambda>w. v_id w = v_id v) (videoFiles (setTimecodes st timecodes))
         = Some (v\<lparr>v_timecodeList := Some (process_timecodes timecodes)\<rparr>)"
proof -
  let ?f = "\<lambda>w. if Some (v_id w) = activeVideoId st
                 then w\<lparr>v_timecodeList := Some (process_timecodes timecodes)\<rparr> else w"
  have "find (\<lambda>w. v_id w = v_id v) (map ?f (videoFiles st))
        = map_option ?f (find (\<lambda>x. v_id x = v_id v) (videoFiles st))"
    by (rule find_map_key) simp
  then show ?thesis
    using find_distinct_key [OF assms(1,2)] assms(3) by (simp add: setTimecodes_def Let_def)
qed

text \<open>
  Claim C7.  In a run of a structured mode, for every target video whose generation
  call returns a result whose first function call is named \<^verbatim>\<open>set_timecodes\<close>, the entry
  of the video holds afterwards, as its cached timecode list, the list of that call in
  which the text of each entry has every occurrence of backslash, apostrophe replaced
  by an apostrophe: the list is unescaped before it is cached.  (The ids of the
  collection are distinct.)
\<close>

theorem onModeSelect_caches_unescaped_timecodes:
  assumes "\<not> isText modeConfig"
    and "distinct (map v_id (videoFiles st))"
    and "v \<in> set (targets st)"
    and "generateContent (basePrompt modeConfig st) True (v_geminiFile v) = Inr resp"
    and "resp_functionCalls resp = Some (call # calls)"
    and "fc_name call = set_timecodes"
  shows "find (\<lambda>w. v_id w = v_id v)
           (videoFiles (onModeSelect generateContent modeConfig mode st))
         = Some (v\<lparr>v_timecodeList :=
                     Some (map (\<lambda>t. t\<lparr>tc_text := unescape_apostrophes (tc_text t)\<rparr>)
                             (fc_timecodes call))\<rparr>)"
proof -
  have ne: "targets st \<noteq> []" using assms(3) by auto
  have v: "v \<in> set (videoFiles st)" using assms(3) targets_subset by blast
  have tv: "task_value generateContent (basePrompt modeConfig st) (isText modeConfig) v
            = Succeeded (v_id v) resp"
    using assms(1,4) by (simp add: task_value_def)
  have r: "find (\<lambda>r. r_id r = v_id v)
            (map (task_value generateContent (basePrompt modeConfig st) (isText modeConfig))
               (targets st))
           = Some (Succeeded (v_id v) resp)"
    using find_results [OF targets_distinct [OF assms(2)] assms(3)] tv by simp
  show ?thesis
    unfolding onModeSelect_record [OF assms(2) v ne]
    using r assms(1,5,6)
    by (simp add: update_entry_def first_call_def process_timecodes_def)
qed

theorem onModeSelect_caches_unescaped_timecodes_witness:
  "find (\<lambda>w. v_id w = js ''a'')
     (videoFiles (onModeSelect (sample_generator (js ''none'')) sample_mode (js ''captions'')
        (sample_state [sample_video (js ''a''), sample_video (js ''b'')] (Some (js ''a'')) False)))
   = Some ((sample_video (js ''a''))
            \<lparr>v_timecodeList := Some [\<lparr>tc_time = js ''0:05'', tc_text = js ''it'' @ [39] @ js ''s''\<rparr>]\<rparr>)"
proof -
  let ?st = "sample_state [sample_video (js ''a''), sample_video (js ''b'')] (Some (js ''a'')) False"
  let ?call = "\<lparr>fc_name = set_timecodes, fc_timecodes = sample_timecodes\<rparr>"
  let ?resp = "\<lparr>resp_text = None, resp_functionCalls = Some [?call]\<rparr>"
  have 1: "\<not> isText sample_mode" by (simp add: sample_mode_def)
  have 2: "distinct (map v_id (videoFiles ?st))"
    by (simp add: sample_state_def sample_video_def js_def)
  have 3: "sample_video (js ''a'') \<in> set (targets ?st)"
    by (simp add: targets_def sample_state_def sample_video_def js_def)
  have 4: "sample_generator (js ''none'') (basePrompt sample_mode ?st) True
             (v_geminiFile (sample_video (js ''a''))) = Inr ?resp"
    by (simp add: sample_generator_def sample_video_def sample_file_def js_def)
  have 5: "resp_functionCalls ?resp = Some (?call # [])" by simp
  have 6: "fc_name ?call = set_timecodes" by simp
  from onModeSelect_caches_unescaped_timecodes
    [where generateContent = "sample_generator (js ''none'')" and modeConfig = sample_mode
       and st = ?st and v = "sample_video (js ''a'')" and resp = ?resp and call = ?call
       and calls = "[]" and mode = "js ''captions''", OF 1 2 3 4 5 6]
  show ?thesis by (simp add: sample_timecodes_def js_def sample_video_def)
qed

text \<open>
  Claim C4, as amended.  Let a structured mode run against all ready videos of a
  collection with distinct ids, let the generation call of one target \<open>f\<close> throw with
  the message \<open>msg\<close>, and let the call of every other target return a result whose first
  function call is named \<^verbatim>\<open>set_timecodes\<close>.  Then every task settles with its own result,
  the one of \<open>f\<close> being the failure with its message, and no exception reaches the outer
  handler (the body of the \<^verbatim>\<open>try\<close> returns a state); the entry of every other target
  holds the unescaped timecode list of its own call; the entry of \<open>f\<close> is left as it
  was, with no mark of the failure; and the failure shows in the displayed text, as the
  error prefix followed by \<open>msg\<close>, exactly when \<open>f\<close> is the active video (otherwise no
  text is displayed).
\<close>

theorem onModeSelect_isolates_failure:
  assumes structured: "\<not> isText modeConfig"
    and all: "applyToAll st"
    and d: "distinct (map v_id (videoFiles st))"
    and f: "f \<in> set (videoFiles st)" "v_geminiFile f \<noteq> None"
    and fails: "generateContent (basePrompt modeConfig st) True (v_geminiFile f) = Inl msg"
    and others: "\<forall>v\<in>set (videoFiles st). v_geminiFile v \<noteq> None \<and> v \<noteq> f \<longrightarrow>
        (\<exists>resp call calls.
           generateContent (basePrompt modeConfig st) True (v_geminiFile v) = Inr resp
           \<and> resp_functionCalls resp = Some (call # calls) \<and> fc_name call = set_timecodes)"
  shows "promise_all (map (run_task generateContent (basePrompt modeConfig st) (isText modeConfig))
                        (targets st))
           = Inr (map (task_value generateContent (basePrompt modeConfig st) (isText modeConfig))
                    (targets st))
    \<and> task_value generateContent (basePrompt modeConfig st) (isText modeConfig) f
         = Failed_task (v_id f) msg
    \<and> (\<exists>st2. onModeSelect_try generateContent modeConfig st
                  (st\<lparr>activeMode := Some mode, isLoading := True, timecodeList := None,
                      textResponse := None, correctionText := [], seoData := empty_seo\<rparr>)
                = Inr st2)
    \<and> (\<forall>v\<in>set (videoFiles st). v_geminiFile v \<noteq> None \<and> v \<noteq> f \<longrightarrow>
         (\<exists>resp call calls.
            generateContent (basePrompt modeConfig st) True (v_geminiFile v) = Inr resp
            \<and> resp_functionCalls resp = Some (call # calls)
            \<and> find (\<lambda>w. v_id w = v_id v)
                 (videoFiles (onModeSelect generateContent modeConfig mode st))
                = Some (v\<lparr>v_timecodeList := Some (process_timecodes (fc_timecodes call))\<rparr>)))
    \<and> find (\<lambda>w. v_id w = v_id f) (videoFiles (onModeSelect generateContent modeConfig mode st))
        = Some f
    \<and> textResponse (onModeSelect generateContent modeConfig mode st)
        = (if activeVideoId st = Some (v_id f) then Some (error_prefix @ msg) else None)"
proof -
  let ?rs = "map (task_value generateContent (basePrompt modeConfig st) (isText modeConfig))
               (targets st)"
  have tg: "targets st = filter (\<lambda>v. v_geminiFile v \<noteq> None) (videoFiles st)"
    using all by (simp add: targets_def)
  have ft: "f \<in> set (targets st)" using f tg by simp
  then have ne: "targets st \<noteq> []" by auto
  have dt: "distinct (map v_id (targets st))" using d by (rule targets_distinct)
  have c1: "\<exists>st2. onModeSelect_try generateContent modeConfig st
                  (st\<lparr>activeMode := Some mode, isLoading := True, timecodeList := None,
                      textResponse := None, correctionText := [], seoData := empty_seo\<rparr>)
                = Inr st2"
    by (simp add: onModeSelect_try_Inr)
  have tvf: "task_value generateContent (basePrompt modeConfig st) (isText modeConfig) f
             = Failed_task (v_id f) msg"
    using structured fails by (simp add: task_value_def)
  have c3: "find (\<lambda>w. v_id w = v_id f)
              (videoFiles (onModeSelect generateContent modeConfig mode st)) = Some f"
    unfolding onModeSelect_record [OF d f(1) ne]
    using find_results [OF dt ft, of generateContent "basePrompt modeConfig st" "isText modeConfig"]
      tvf
    by (simp add: update_entry_def)
  have c2: "\<exists>resp call calls.
            generateContent (basePrompt modeConfig st) True (v_geminiFile v) = Inr resp
            \<and> resp_functionCalls resp = Some (call # calls)
            \<and> find (\<lambda>w. v_id w = v_id v)
                 (videoFiles (onModeSelect generateContent modeConfig mode st))
                = Some (v\<lparr>v_timecodeList := Some (process_timecodes (fc_timecodes call))\<rparr>)"
    if v: "v \<in> set (videoFiles st)" "v_geminiFile v \<noteq> None" "v \<noteq> f" for v
  proof -
    from others v obtain resp call calls where
      r: "generateContent (basePrompt modeConfig st) True (v_geminiFile v) = Inr resp"
         "resp_functionCalls resp = Some (call # calls)" "fc_name call = set_timecodes"
      by blast
    have vt: "v \<in> set (targets st)" using v tg by simp
    have tv: "task_value generateContent (basePrompt modeConfig st) (isText modeConfig) v
              = Succeeded (v_id v) resp"
      using structured r(1) by (simp add: task_value_def)
    have "find (\<lambda>w. v_id w = v_id v)
            (videoFiles (onModeSelect generateContent modeConfig mode st))
          = Some (v\<lparr>v_timecodeList := Some (process_timecodes (fc_timecodes call))\<rparr>)"
      unfolding onModeSelect_record [OF d v(1) ne]
      using find_results [OF dt vt, of generateContent "basePrompt modeConfig st" "isText modeConfig"]
        tv structured r(2,3)
      by (simp add: update_entry_def first_call_def)
    with r show ?thesis by blast
  qed
  have c4: "textResponse (onModeSelect generateContent modeConfig mode st)
        = (if activeVideoId st = Some (v_id f) then Some (error_prefix @ msg) else None)"
  proof (cases "activeVideoId st = Some (v_id f)")
    case True
    have "find (\<lambda>r. Some (r_id r) = activeVideoId st) ?rs = Some (Failed_task (v_id f) msg)"
      using find_results [OF dt ft, of generateContent "basePrompt modeConfig st" "isText modeConfig"]
        tvf True by simp
    then show ?thesis
      unfolding onModeSelect_textResponse [OF ne] using True
      by (simp add: update_active_view_def)
  next
    case False
    show ?thesis
    proof (cases "find (\<lambda>r. Some (r_id r) = activeVideoId st) ?rs")
      case None
      then show ?thesis
        unfolding onModeSelect_textResponse [OF ne] using False
        by (simp add: update_active_view_def)
    next
      case (Some r)
      then have rin: "r \<in> set ?rs" and rid: "Some (r_id r) = activeVideoId st"
        by (auto simp: find_Some_iff)
      then obtain v where v: "v \<in> set (targets st)"
        "r = task_value generateContent (basePrompt modeConfig st) (isText modeConfig) v"
        by auto
      have "v_id v \<noteq> v_id f" using rid False v(2) by (auto simp: task_value_id)
      then have "v \<noteq> f" by auto
      moreover have "v \<in> set (videoFiles st)" "v_geminiFile v \<noteq> None" using v(1) tg by auto
      ultimately obtain resp call calls where
        r: "generateContent (basePrompt modeConfig st) True (v_geminiFile v) = Inr resp"
           "resp_functionCalls resp = Some (call # calls)" "fc_name call = set_timecodes"
        using others by blast
      have "r = Succeeded (v_id v) resp"
        using v(2) structured r(1) by (simp add: task_value_def)
      then show ?thesis
        unfolding onModeSelect_textResponse [OF ne] using False Some structured r(2,3)
        by (simp add: update_active_view_def first_call_def)
    qed
  qed
  note c0 = promise_all_run_task
    [of generateContent "basePrompt modeConfig st" "isText modeConfig" "targets st"]
  show ?thesis using c0 tvf c1 c2 c3 c4 by blast
qed

lemmas controller_eval = onModeSelect_def onModeSelect_try_def targets_def basePrompt_def
  run_task_def task_value_def update_entry_def update_active_view_def first_call_def
  process_timecodes_def set_timecodes_def js_def trim_def Let_def empty_seo_def
  in_error_state_def error_prefix_def

theorem onModeSelect_isolates_failure_witness:
  "find (\<lambda>w. v_id w = js ''a'')
     (videoFiles (onModeSelect (sample_generator (js ''b'')) sample_mode (js ''captions'')
        (sample_state [sample_video (js ''a''), sample_video (js ''b''), sample_video (js ''c'')]
           (Some (js ''b'')) True)))
     = Some (sample_captioned_video (js ''a''))
   \<and> find (\<lambda>w. v_id w = js ''b'')
     (videoFiles (onModeSelect (sample_generator (js ''b'')) sample_mode (js ''captions'')
        (sample_state [sample_video (js ''a''), sample_video (js ''b''), sample_video (js ''c'')]
           (Some (js ''b'')) True)))
     = Some (sample_video (js ''b''))
   \<and> textResponse (onModeSelect (sample_generator (js ''b'')) sample_mode (js ''captions'')
        (sample_state [sample_video (js ''a''), sample_video (js ''b''), sample_video (js ''c'')]
           (Some (js ''b'')) True))
     = Some (error_prefix @ js ''quota'')"
proof -
  let ?st = "sample_state [sample_video (js ''a''), sample_video (js ''b''), sample_video (js ''c'')]
           (Some (js ''b'')) True"
  let ?gen = "sample_generator (js ''b'')"
  let ?call = "\<lparr>fc_name = set_timecodes, fc_timecodes = sample_timecodes\<rparr>"
  let ?resp = "\<lparr>resp_text = None, resp_functionCalls = Some [?call]\<rparr>"
  have 1: "\<not> isText sample_mode" by (simp add: sample_mode_def)
  have 2: "applyToAll ?st" by (simp add: sample_state_def)
  have 3: "distinct (map v_id (videoFiles ?st))"
    by (simp add: sample_state_def sample_video_def js_def)
  have 4: "sample_video (js ''b'') \<in> set (videoFiles ?st)" by (simp add: sample_state_def)
  have 5: "v_geminiFile (sample_video (js ''b'')) \<noteq> None" by (simp add: sample_video_def)
  have 6: "?gen (basePrompt sample_mode ?st) True (v_geminiFile (sample_video (js ''b'')))
            = Inl (js ''quota'')"
    by (simp add: sample_generator_def sample_video_def)
  have ga: "?gen (basePrompt sample_mode ?st) True (v_geminiFile (sample_video (js ''a'')))
            = Inr ?resp"
    by (simp add: sample_generator_def sample_video_def sample_file_def js_def)
  have gc: "?gen (basePrompt sample_mode ?st) True (v_geminiFile (sample_video (js ''c'')))
            = Inr ?resp"
    by (simp add: sample_generator_def sample_video_def sample_file_def js_def)
  have 7: "\<forall>v\<in>set (videoFiles ?st). v_geminiFile v \<noteq> None \<and> v \<noteq> sample_video (js ''b'') \<longrightarrow>
        (\<exists>resp call calls.
           ?gen (basePrompt sample_mode ?st) True (v_geminiFile v) = Inr resp
           \<and> resp_functionCalls resp = Some (call # calls) \<and> fc_name call = set_timecodes)"
    using ga gc by (simp add: sample_state_def)
  note t = onModeSelect_isolates_failure
    [where generateContent = ?gen and modeConfig = sample_mode and st = ?st
       and f = "sample_video (js ''b'')" and msg = "js ''quota''" and mode = "js ''captions''",
     OF 1 2 3 4 5 6 7]
  have a: "sample_video (js ''a'') \<in> set (videoFiles ?st)
      \<and> v_geminiFile (sample_video (js ''a'')) \<noteq> None
      \<and> sample_video (js ''a'') \<noteq> sample_video (js ''b'')"
    by (simp add: sample_state_def sample_video_def js_def)
  with t obtain resp call calls where
    r: "?gen (basePrompt sample_mode ?st) True (v_geminiFile (sample_video (js ''a''))) = Inr resp"
       "resp_functionCalls resp = Some (call # calls)"
       "find (\<lambda>w. v_id w = v_id (sample_video (js ''a'')))
          (videoFiles (onModeSelect ?gen sample_mode (js ''captions'') ?st))
        = Some ((sample_video (js ''a''))
                  \<lparr>v_timecodeList := Some (process_timecodes (fc_timecodes call))\<rparr>)"
    by blast
  from r(1) ga have "resp = ?resp" by simp
  with r(2) have "call = ?call" by simp
  with r(3) have ra: "find (\<lambda>w. v_id w = js ''a'')
          (videoFiles (onModeSelect ?gen sample_mode (js ''captions'') ?st))
        = Some (sample_captioned_video (js ''a''))"
    by (simp add: sample_captioned_video_def sample_video_def)
  from t have rb: "find (\<lambda>w. v_id w = js ''b'')
          (videoFiles (onModeSelect ?gen sample_mode (js ''captions'') ?st))
        = Some (sample_video (js ''b''))"
    by (simp add: sample_video_def)
  from t have rt: "textResponse (onModeSelect ?gen sample_mode (js ''captions'') ?st)
        = Some (error_prefix @ js ''quota'')"
    by (simp add: sample_state_def sample_video_def)
  from ra rb rt show ?thesis by blast
qed

text \<open>
  The claim as stated fails for a failing video that is not the active one: with three
  ready videos, of which the first is active and the second fails, the second video is
  in no error state after the run: its entry is the one it had, and no error is
  displayed.
\<close>

theorem onModeSelect_isolates_failure_counterexample:
  "sample_generator (js ''b'') (js ''Generate captions'') True
       (v_geminiFile (sample_video (js ''b''))) = Inl (js ''quota'')
   \<and> \<not> in_error_state
       (onModeSelect (sample_generator (js ''b'')) sample_mode (js ''captions'')
          (sample_state [sample_video (js ''a''), sample_video (js ''b''), sample_video (js ''c'')]
             (Some (js ''a'')) True))
       (js ''b'')
   \<and> onModeSelect (sample_generator (js ''b'')) sample_mode (js ''captions'')
          (sample_state [sample_video (js ''a''), sample_video (js ''b''), sample_video (js ''c'')]
             (Some (js ''a'')) True)
     = (sample_state
          [sample_captioned_video (js ''a''), sample_video (js ''b''),
           sample_captioned_video (js ''c'')]
          (Some (js ''a'')) False)
       \<lparr>activeMode := Some (js ''captions''),
          timecodeList := Some (process_timecodes sample_timecodes)\<rparr>"
proof -
  have a: "sample_generator (js ''b'') (js ''Generate captions'') True
       (v_geminiFile (sample_video (js ''b''))) = Inl (js ''quota'')"
    by (simp add: sample_generator_def sample_video_def)
  have b: "\<not> in_error_state
       (onModeSelect (sample_generator (js ''b'')) sample_mode (js ''captions'')
          (sample_state [sample_video (js ''a''), sample_video (js ''b''), sample_video (js ''c'')]
             (Some (js ''a'')) True))
       (js ''b'')"
    by (simp add: sample_defs controller_eval)
  have c: "onModeSelect (sample_generator (js ''b'')) sample_mode (js ''captions'')
          (sample_state [sample_video (js ''a''), sample_video (js ''b''), sample_video (js ''c'')]
             (Some (js ''a'')) True)
     = (sample_state
          [sample_captioned_video (js ''a''), sample_video (js ''b''),
           sample_captioned_video (js ''c'')]
          (Some (js ''a'')) False)
       \<lparr>activeMode := Some (js ''captions''),
          timecodeList := Some (process_timecodes sample_timecodes)\<rparr>"
    by (simp add: sample_defs controller_eval)
  from a b c show ?thesis by blast
qed

subsection \<open>The cached fields stay the parse of the cached text\<close>

text \<open>
  A new entry has no cached fields, and both writers of the cached fields, onModeSelect
  and handleCorrection, store them together with the text they are parsed from.  Every
  other update of an entry leaves both as they are.  So an entry whose cached fields
  disagree with its cached text is made by no handler, and the hypothesis
  \<open>cache_consistent\<close> of the restore property holds of every entry they make.
\<close>

lemma newVideoEntry_consistent: "cache_consistent (newVideoEntry i n u)"
  by (simp add: cache_consistent_def newVideoEntry_def)

lemma cache_consistent_same_cache:
  "v_seoData w = v_seoData v \<Longrightarrow> v_textResponse w = v_textResponse v \<Longrightarrow>
     cache_consistent w = cache_consistent v"
  by (simp add: cache_consistent_def split: option.splits)

lemma update_entry_consistent:
  "cache_consistent v \<Longrightarrow> cache_consistent (update_entry b rs v)"
  by (simp add: update_entry_def cache_consistent_def split: option.splits task_result.splits)

lemma correction_update_consistent:
  "cache_consistent v \<Longrightarrow> cache_consistent (correction_update a t v)"
  by (simp add: correction_update_def cache_consistent_def)

lemma onModeSelect_videoFiles:
  "videoFiles (onModeSelect gen cfg mode st) =
     (if targets st = [] then videoFiles st
      else map (update_entry (isText cfg)
                  (map (task_value gen (basePrompt cfg st) (isText cfg)) (targets st)))
             (videoFiles st))"
  by (simp add: onModeSelect_def Let_def onModeSelect_try_Inr update_active_view_videoFiles)

lemma onModeSelect_keeps_consistent:
  assumes "\<forall>v\<in>set (videoFiles st). cache_consistent v"
  shows "\<forall>v\<in>set (videoFiles (onModeSelect gen cfg mode st)). cache_consistent v"
  using assms by (auto simp: onModeSelect_videoFiles update_entry_consistent)

lemma handleRemoveVideo_keeps_consistent:
  assumes "\<forall>v\<in>set (videoFiles st). cache_consistent v"
  shows "\<forall>v\<in>set (videoFiles (handleRemoveVideo st i)). cache_consistent v"
  using assms by (auto simp: handleRemoveVideo_def Let_def split: option.splits)

lemma setTimecodes_keeps_consistent:
  assumes "\<forall>v\<in>set (videoFiles st). cache_consistent v"
  shows "\<forall>v\<in>set (videoFiles (setTimecodes st timecodes)). cache_consistent v"
  using assms by (auto simp: setTimecodes_def Let_def cache_consistent_def split: option.splits)

lemma restore_effect_videoFiles: "videoFiles (restore_effect st) = videoFiles st"
  by (simp add: restore_effect_def Let_def split: option.splits)

lemma sync_effect_videoFiles: "videoFiles (sync_effect st) = videoFiles st"
  by (simp add: sync_effect_def Let_def)

lemma setActive_videoFiles: "videoFiles (setActive st i) = videoFiles st"
  by (simp add: setActive_def Let_def restore_effect_videoFiles sync_effect_videoFiles)

end
